theory Spec2Isabelle
  imports Complex_Main
begin

section \<open>The JKU ground-truth parser \<^verbatim>\<open>parsers/jku_parser.py\<close>\<close>

text \<open>
  The script walks the directory tree of the JKU patterns dataset, collects for every
  piece and annotation type the occurrence files of every pattern, reads each occurrence
  file as CSV and saves the observations as a JAMS annotation.

  What the script gets from outside is a parameter of the model:
  \<^item> the file system, read through \<open>glob.glob\<close>, \<open>os.path.isdir\<close> and
    \<open>open\<close> + \<open>csv.reader\<close> (record \<open>filesystem\<close>);
  \<^item> the builtin conversions \<open>float\<close> and \<open>int\<close> on strings (functions
    \<open>flt\<close> and \<open>toint\<close>, \<open>None\<close> where the builtin raises ValueError; the type
    \<open>'f\<close> stands for Python's floats);
  \<^item> the JAMS library: an annotation collects the observations in the order in which
    they are added, and \<open>save\<close> writes the whole document under the name it is given.
  Logging and the creation of the output directory at the start of \<open>process\<close> are
  left out: nothing below depends on them.
\<close>

subsection \<open>Exceptions\<close>

datatype error = AssertionError | IndexError | ValueError | IOError

subsection \<open>Builtins on lists, strings and paths\<close>

text \<open>\<open>xs[i]\<close>: a negative index counts from the end, an index out of range raises.\<close>

definition getitem :: "'a list \<Rightarrow> int \<Rightarrow> error + 'a" where
  "getitem xs i =
     (if 0 \<le> i
      then (if nat i < length xs then Inr (xs ! nat i) else Inl IndexError)
      else (if nat (- i) \<le> length xs then Inr (xs ! (length xs - nat (- i)))
            else Inl IndexError))"

text \<open>\<open>s.split(sep)\<close> for a separator of one character: the pieces between the
  separators, empty pieces included, so the result is never empty.\<close>

fun py_split :: "char \<Rightarrow> string \<Rightarrow> string list" where
  "py_split sep [] = [[]]"
| "py_split sep (c # cs) =
     (if c = sep then [] # py_split sep cs
      else (case py_split sep cs of
              [] \<Rightarrow> [[c]]
            | w # ws \<Rightarrow> (c # w) # ws))"

text \<open>\<open>xs.index(x)\<close>: the position of the first element equal to \<open>x\<close>, ValueError when
  there is none.\<close>

fun py_index :: "'a list \<Rightarrow> 'a \<Rightarrow> error + int" where
  "py_index [] x = Inl ValueError"
| "py_index (y # ys) x =
     (if y = x then Inr 0
      else (case py_index ys x of Inl e \<Rightarrow> Inl e | Inr i \<Rightarrow> Inr (i + 1)))"

text \<open>\<open>os.path.join\<close> (posixpath): a component that starts with a slash replaces what
  came before; otherwise it is appended, after a slash unless the path so far is empty
  or ends with one.\<close>

definition join2 :: "string \<Rightarrow> string \<Rightarrow> string" where
  "join2 path b =
     (if b \<noteq> [] \<and> hd b = CHR ''/'' then b
      else if path = [] \<or> last path = CHR ''/'' then path @ b
      else path @ ''/'' @ b)"

definition path_join :: "string \<Rightarrow> string list \<Rightarrow> string" where
  "path_join a p = foldl join2 a p"

text \<open>\<open>os.path.split(p)[1]\<close>: what follows the last slash of \<open>p\<close>.\<close>

definition path_tail :: "string \<Rightarrow> string" where
  "path_tail p = rev (takeWhile (\<lambda>c. c \<noteq> CHR ''/'') (rev p))"

subsection \<open>The file system\<close>

record filesystem =
  glob :: "string \<Rightarrow> string list"
  isdir :: "string \<Rightarrow> bool"
  read_csv :: "string \<Rightarrow> string list list option"

text \<open>
  \<open>glob fs pat\<close> is the list \<open>glob.glob(pat)\<close> returns, in the order in which it returns
  it; \<open>read_csv fs file\<close> is the list of rows \<open>csv.reader\<close> yields for the file, each
  row the list of its fields, and \<open>None\<close> when the file cannot be opened.
\<close>

subsection \<open>The output file of a piece: \<open>get_out_file\<close>\<close>

definition get_out_file :: "string list list \<Rightarrow> string \<Rightarrow> error + string" where
  "get_out_file patterns out_dir =
     (if \<not> length patterns > 0 then Inl AssertionError
      else case getitem patterns 0 of Inl e \<Rightarrow> Inl e | Inr pattern0 \<Rightarrow>
           case getitem pattern0 0 of Inl e \<Rightarrow> Inl e | Inr occ0 \<Rightarrow>
           let name_split = py_split CHR ''/'' occ0 in
           case py_index name_split ''groundTruth'' of Inl e \<Rightarrow> Inl e | Inr i \<Rightarrow>
           let idx_offset = i - 1 in
           case getitem name_split (idx_offset + 2) of Inl e \<Rightarrow> Inl e | Inr a \<Rightarrow>
           case getitem name_split (idx_offset + 3) of Inl e \<Rightarrow> Inl e | Inr b \<Rightarrow>
           Inr (path_join out_dir [a @ ''-'' @ b @ ''.txt'']))"

subsection \<open>Observations and the JAMS document\<close>

record 'f obs_value =
  midi_pitch :: 'f
  morph_pitch :: 'f
  staff :: int
  pattern_id :: int
  occurrence_id :: int

record 'f observation =
  time :: 'f
  duration :: 'f
  val :: "'f obs_value"

record curator =
  name :: string
  email :: string

record annotation_metadata =
  curator :: curator
  version :: string
  corpus :: string

record 'f annotation =
  namespace :: string
  annotation_metadata :: annotation_metadata
  data :: "'f observation list"

record 'f jams =
  annotations :: "'f annotation list"

text \<open>The files written so far: one entry per call of \<open>save\<close>, the latest last.\<close>

type_synonym 'f disk = "(string \<times> 'f jams) list"

text \<open>What a file holds after the writes: the document of the latest write to it.\<close>

definition on_disk :: "'f disk \<Rightarrow> string \<Rightarrow> 'f jams option" where
  "on_disk d file = map_of (rev d) file"

subsection \<open>Reading the occurrences: \<open>parse_patterns\<close>\<close>

definition float_field :: "(string \<Rightarrow> 'f option) \<Rightarrow> string list \<Rightarrow> int \<Rightarrow> error + 'f" where
  "float_field flt row i =
     (case getitem row i of
        Inl e \<Rightarrow> Inl e
      | Inr s \<Rightarrow> (case flt s of None \<Rightarrow> Inl ValueError | Some v \<Rightarrow> Inr v))"

definition int_field :: "(string \<Rightarrow> int option) \<Rightarrow> string list \<Rightarrow> int \<Rightarrow> error + int" where
  "int_field toint row i =
     (case getitem row i of
        Inl e \<Rightarrow> Inl e
      | Inr s \<Rightarrow> (case toint s of None \<Rightarrow> Inl ValueError | Some v \<Rightarrow> Inr v))"

text \<open>The body of the innermost loop: the value dictionary is built first (columns 1,
  2 and 4), then the arguments of \<open>add_observation\<close> (columns 0 and 3).\<close>

definition row_observation ::
  "(string \<Rightarrow> 'f option) \<Rightarrow> (string \<Rightarrow> int option) \<Rightarrow> int \<Rightarrow> int \<Rightarrow> string list
     \<Rightarrow> error + 'f observation" where
  "row_observation flt toint pattern_n occ_n row =
     (case float_field flt row 1 of Inl e \<Rightarrow> Inl e | Inr mp \<Rightarrow>
      case float_field flt row 2 of Inl e \<Rightarrow> Inl e | Inr mo \<Rightarrow>
      case int_field toint row 4 of Inl e \<Rightarrow> Inl e | Inr st \<Rightarrow>
      case float_field flt row 0 of Inl e \<Rightarrow> Inl e | Inr t \<Rightarrow>
      case float_field flt row 3 of Inl e \<Rightarrow> Inl e | Inr d \<Rightarrow>
      Inr \<lparr>time = t, duration = d,
           val = \<lparr>midi_pitch = mp, morph_pitch = mo, staff = st,
                  pattern_id = pattern_n, occurrence_id = occ_n\<rparr>\<rparr>)"

text \<open>\<open>for fields in file_reader\<close>: one observation per row, added at the end.\<close>

fun rows_loop ::
  "(string \<Rightarrow> 'f option) \<Rightarrow> (string \<Rightarrow> int option) \<Rightarrow> int \<Rightarrow> int \<Rightarrow> string list list
     \<Rightarrow> 'f observation list \<Rightarrow> error + 'f observation list" where
  "rows_loop flt toint pattern_n occ_n [] obs = Inr obs"
| "rows_loop flt toint pattern_n occ_n (row # rest) obs =
     (case row_observation flt toint pattern_n occ_n row of
        Inl e \<Rightarrow> Inl e
      | Inr ob \<Rightarrow> rows_loop flt toint pattern_n occ_n rest (obs @ [ob]))"

text \<open>\<open>for occ_file in pattern\<close>, with the counter \<open>occ_n\<close>.\<close>

fun occ_loop ::
  "filesystem \<Rightarrow> (string \<Rightarrow> 'f option) \<Rightarrow> (string \<Rightarrow> int option) \<Rightarrow> int \<Rightarrow> int \<Rightarrow> string list
     \<Rightarrow> 'f observation list \<Rightarrow> error + 'f observation list" where
  "occ_loop fs flt toint pattern_n occ_n [] obs = Inr obs"
| "occ_loop fs flt toint pattern_n occ_n (occ_file # rest) obs =
     (case read_csv fs occ_file of
        None \<Rightarrow> Inl IOError
      | Some rows \<Rightarrow>
          (case rows_loop flt toint pattern_n occ_n rows obs of
             Inl e \<Rightarrow> Inl e
           | Inr obs' \<Rightarrow> occ_loop fs flt toint pattern_n (occ_n + 1) rest obs'))"

text \<open>\<open>for pattern in patterns\<close>, with the counter \<open>pattern_n\<close>; \<open>occ_n\<close> starts
  at 1 in every pattern.\<close>

fun pattern_loop ::
  "filesystem \<Rightarrow> (string \<Rightarrow> 'f option) \<Rightarrow> (string \<Rightarrow> int option) \<Rightarrow> int \<Rightarrow> string list list
     \<Rightarrow> 'f observation list \<Rightarrow> error + 'f observation list" where
  "pattern_loop fs flt toint pattern_n [] obs = Inr obs"
| "pattern_loop fs flt toint pattern_n (pattern # rest) obs =
     (case occ_loop fs flt toint pattern_n 1 pattern obs of
        Inl e \<Rightarrow> Inl e
      | Inr obs' \<Rightarrow> pattern_loop fs flt toint (pattern_n + 1) rest obs')"

text \<open>The document that is saved: fixed metadata around the observations.\<close>

definition jam_of :: "'f observation list \<Rightarrow> 'f jams" where
  "jam_of obs =
     \<lparr>annotations =
        [\<lparr>namespace = ''pattern_jku'',
          annotation_metadata =
            \<lparr>curator = \<lparr>name = ''Tom Collins'', email = ''tom.collins@dmu.ac.uk''\<rparr>,
             version = ''August2013'',
             corpus = ''JKU Development Dataset''\<rparr>,
          data = obs\<rparr>]\<rparr>"

text \<open>\<open>parse_patterns\<close> returns the exception it raises, if any, and the disk it leaves.
  The only write is the last statement, \<open>jam.save("test.jams")\<close>.\<close>

definition parse_patterns ::
  "filesystem \<Rightarrow> (string \<Rightarrow> 'f option) \<Rightarrow> (string \<Rightarrow> int option) \<Rightarrow> string list list \<Rightarrow> string
     \<Rightarrow> 'f disk \<Rightarrow> error option \<times> 'f disk" where
  "parse_patterns fs flt toint patterns out_file d =
     (case pattern_loop fs flt toint 1 patterns [] of
        Inl e \<Rightarrow> (Some e, d)
      | Inr obs \<Rightarrow> (None, d @ [(''test.jams'', jam_of obs)]))"

subsection \<open>Collecting the occurrence files: \<open>get_gt_patterns\<close>\<close>

text \<open>\<open>for pattern in patterns\<close>: a pattern that is a directory adds the list of its
  occurrence files to \<open>P\<close>, whatever its length.\<close>

fun gt_pattern_loop :: "filesystem \<Rightarrow> string list \<Rightarrow> string list list \<Rightarrow> string list list" where
  "gt_pattern_loop fs [] P = P"
| "gt_pattern_loop fs (pattern # rest) P =
     (if isdir fs pattern
      then (let occurrences = glob fs (path_join pattern [''occurrences'', ''csv'', ''*.csv''])
            in gt_pattern_loop fs rest (P @ [occurrences]))
      else gt_pattern_loop fs rest P)"

fun gt_annotator_loop :: "filesystem \<Rightarrow> string list \<Rightarrow> string list list \<Rightarrow> string list list" where
  "gt_annotator_loop fs [] P = P"
| "gt_annotator_loop fs (annotator # rest) P =
     (let patterns = glob fs (path_join annotator [''*''])
      in gt_annotator_loop fs rest (gt_pattern_loop fs patterns P))"

definition get_gt_patterns :: "filesystem \<Rightarrow> string list \<Rightarrow> string list list" where
  "get_gt_patterns fs annotators = gt_annotator_loop fs annotators []"

subsection \<open>The main loop: \<open>process\<close>\<close>

definition valid_annotators :: "string list" where
  "valid_annotators =
     [''barlowAndMorgensternRevised'', ''bruhn'', ''schoenberg'', ''sectionalRepetitions'',
      ''tomCollins'']"

text \<open>
  The loop that filters the polyphonic annotators removes from the list it iterates over:
  \<^verbatim>\<open>
  for annotator in annotators:
      if os.path.split(annotator)[1] not in valid_annotators:
          annotators.remove(annotator)
  \<close>
  A Python \<open>for\<close> over a list reads position 0, 1, 2, ... of the list as it is at that
  moment and stops when the position reaches the length; \<open>remove\<close> deletes the first
  element equal to its argument. \<open>i\<close> is the position the loop reads next.
\<close>

function remove_loop :: "nat \<Rightarrow> string list \<Rightarrow> string list" where
  "remove_loop i annotators =
     (if i < length annotators
      then (let annotator = annotators ! i
            in if path_tail annotator \<notin> set valid_annotators
               then remove_loop (i + 1) (remove1 annotator annotators)
               else remove_loop (i + 1) annotators)
      else annotators)"
  by pat_completeness auto
termination
proof (relation "measure (\<lambda>(i, annotators). length annotators - i)")
  show "wf (measure (\<lambda>(i, annotators). length annotators - i))" by simp
next
  fix i :: nat and annotators :: "string list" and x
  assume "i < length annotators" and "x = annotators ! i"
  then have "x \<in> set annotators" by simp
  then have "length (remove1 x annotators) = length annotators - 1"
    by (simp add: length_remove1)
  with \<open>i < length annotators\<close>
  show "((i + 1, remove1 x annotators), (i, annotators))
          \<in> measure (\<lambda>(i, annotators). length annotators - i)"
    by simp
next
  fix i :: nat and annotators :: "string list" and x :: string
  assume "i < length annotators"
  then show "((i + 1, annotators), (i, annotators))
          \<in> measure (\<lambda>(i, annotators). length annotators - i)"
    by simp
qed

declare remove_loop.simps [simp del]

text \<open>The annotators of one piece and one type, as they are handed to
  \<open>get_gt_patterns\<close>.\<close>

definition type_annotators :: "filesystem \<Rightarrow> string \<Rightarrow> string \<Rightarrow> string list" where
  "type_annotators fs piece type =
     (let annotators = glob fs (path_join piece [type, ''repeatedPatterns'', ''*''])
      in if type = ''polyphonic'' then remove_loop 0 annotators else annotators)"

definition types :: "string list" where
  "types = [''monophonic'', ''polyphonic'']"

text \<open>\<open>for type in types\<close> and \<open>for piece in pieces\<close>: every pass of the inner loop
  appends one pattern list to \<open>all_patterns\<close>.\<close>

fun type_loop :: "filesystem \<Rightarrow> string \<Rightarrow> string list \<Rightarrow> string list list list
    \<Rightarrow> string list list list" where
  "type_loop fs piece [] all_patterns = all_patterns"
| "type_loop fs piece (type # rest) all_patterns =
     type_loop fs piece rest
       (all_patterns @ [get_gt_patterns fs (type_annotators fs piece type)])"

fun piece_loop :: "filesystem \<Rightarrow> string list \<Rightarrow> string list list list \<Rightarrow> string list list list" where
  "piece_loop fs [] all_patterns = all_patterns"
| "piece_loop fs (piece # rest) all_patterns =
     piece_loop fs rest (type_loop fs piece types all_patterns)"

text \<open>\<open>for patterns in all_patterns\<close>: the first exception ends the run.\<close>

fun save_loop ::
  "filesystem \<Rightarrow> (string \<Rightarrow> 'f option) \<Rightarrow> (string \<Rightarrow> int option) \<Rightarrow> string
     \<Rightarrow> string list list list \<Rightarrow> 'f disk \<Rightarrow> error option \<times> 'f disk" where
  "save_loop fs flt toint out_dir [] d = (None, d)"
| "save_loop fs flt toint out_dir (patterns # rest) d =
     (case get_out_file patterns out_dir of
        Inl e \<Rightarrow> (Some e, d)
      | Inr out_file \<Rightarrow>
          (case parse_patterns fs flt toint patterns out_file d of
             (Some e, d') \<Rightarrow> (Some e, d')
           | (None, d') \<Rightarrow> save_loop fs flt toint out_dir rest d'))"

definition all_patterns_of :: "filesystem \<Rightarrow> string \<Rightarrow> string list list list" where
  "all_patterns_of fs jku_dir =
     (let pieces = glob fs (path_join jku_dir [''groundTruth'', ''*''])
      in piece_loop fs pieces [])"

definition process ::
  "filesystem \<Rightarrow> (string \<Rightarrow> 'f option) \<Rightarrow> (string \<Rightarrow> int option) \<Rightarrow> string \<Rightarrow> string
     \<Rightarrow> 'f disk \<Rightarrow> error option \<times> 'f disk" where
  "process fs flt toint jku_dir out_dir d =
     save_loop fs flt toint out_dir (all_patterns_of fs jku_dir) d"

subsection \<open>What the specification says the document holds\<close>

text \<open>
  The specification describes the result by its contents, not by loops and counters:
  the pattern directories of the annotators in order, the occurrence files of every
  pattern in order, the rows of every file in order; patterns numbered from 1,
  occurrences numbered from 1 within their pattern.
\<close>

definition pattern_dirs :: "filesystem \<Rightarrow> string \<Rightarrow> string list" where
  "pattern_dirs fs annotator = filter (isdir fs) (glob fs (path_join annotator [''*'']))"

definition occurrence_files :: "filesystem \<Rightarrow> string \<Rightarrow> string list" where
  "occurrence_files fs pattern = glob fs (path_join pattern [''occurrences'', ''csv'', ''*.csv''])"

definition spec_patterns :: "filesystem \<Rightarrow> string list \<Rightarrow> string list list" where
  "spec_patterns fs annotators =
     concat (map (\<lambda>annotator. map (occurrence_files fs) (pattern_dirs fs annotator)) annotators)"

definition rows_of :: "filesystem \<Rightarrow> string \<Rightarrow> string list list" where
  "rows_of fs occ_file = (case read_csv fs occ_file of None \<Rightarrow> [] | Some rows \<Rightarrow> rows)"

definition row_observations ::
  "(string \<Rightarrow> 'f option) \<Rightarrow> (string \<Rightarrow> int option) \<Rightarrow> int \<Rightarrow> int \<Rightarrow> string list list
     \<Rightarrow> 'f observation list" where
  "row_observations flt toint p n rows =
     concat (map (\<lambda>row. case row_observation flt toint p n row of
                            Inl e \<Rightarrow> [] | Inr ob \<Rightarrow> [ob]) rows)"

definition occurrence_observations ::
  "filesystem \<Rightarrow> (string \<Rightarrow> 'f option) \<Rightarrow> (string \<Rightarrow> int option) \<Rightarrow> int \<Rightarrow> nat \<Rightarrow> string list
     \<Rightarrow> 'f observation list" where
  "occurrence_observations fs flt toint p k pattern =
     concat (map (\<lambda>(j, occ_file). row_observations flt toint p (int j + 1) (rows_of fs occ_file))
                 (enumerate k pattern))"

text \<open>The observations of the patterns when \<open>k\<close> patterns came before them;
  the document of a pattern list is the case \<open>k = 0\<close>.\<close>

definition observations_from ::
  "filesystem \<Rightarrow> (string \<Rightarrow> 'f option) \<Rightarrow> (string \<Rightarrow> int option) \<Rightarrow> nat \<Rightarrow> string list list
     \<Rightarrow> 'f observation list" where
  "observations_from fs flt toint k patterns =
     concat (map (\<lambda>(i, pattern). occurrence_observations fs flt toint (int i + 1) 0 pattern)
                 (enumerate k patterns))"

definition spec_observations ::
  "filesystem \<Rightarrow> (string \<Rightarrow> 'f option) \<Rightarrow> (string \<Rightarrow> int option) \<Rightarrow> string list list
     \<Rightarrow> 'f observation list" where
  "spec_observations fs flt toint patterns = observations_from fs flt toint 0 patterns"

text \<open>A row is well formed when it has five columns that convert; a pattern list is,
  when every occurrence file of it can be read and holds only such rows.\<close>

definition row_ok :: "(string \<Rightarrow> 'f option) \<Rightarrow> (string \<Rightarrow> int option) \<Rightarrow> string list \<Rightarrow> bool" where
  "row_ok flt toint row =
     (5 \<le> length row \<and> flt (row ! 0) \<noteq> None \<and> flt (row ! 1) \<noteq> None \<and> flt (row ! 2) \<noteq> None
      \<and> flt (row ! 3) \<noteq> None \<and> toint (row ! 4) \<noteq> None)"

definition file_ok ::
  "filesystem \<Rightarrow> (string \<Rightarrow> 'f option) \<Rightarrow> (string \<Rightarrow> int option) \<Rightarrow> string \<Rightarrow> bool" where
  "file_ok fs flt toint occ_file =
     (case read_csv fs occ_file of None \<Rightarrow> False | Some rows \<Rightarrow> list_all (row_ok flt toint) rows)"

definition well_formed ::
  "filesystem \<Rightarrow> (string \<Rightarrow> 'f option) \<Rightarrow> (string \<Rightarrow> int option) \<Rightarrow> string list list \<Rightarrow> bool" where
  "well_formed fs flt toint patterns = list_all (list_all (file_ok fs flt toint)) patterns"

definition readable :: "filesystem \<Rightarrow> string list list \<Rightarrow> bool" where
  "readable fs patterns = list_all (list_all (\<lambda>occ_file. read_csv fs occ_file \<noteq> None)) patterns"

text \<open>The pair of identifiers an observation carries.\<close>

definition ids :: "'f observation \<Rightarrow> int \<times> int" where
  "ids ob = (pattern_id (val ob), occurrence_id (val ob))"

text \<open>The identifiers the specification gives to the rows: the rows of occurrence
  \<open>j\<close> of pattern \<open>i\<close>, both counted from 1, all carry \<open>(i, j)\<close>.\<close>

definition spec_ids :: "filesystem \<Rightarrow> string list list \<Rightarrow> (int \<times> int) list" where
  "spec_ids fs patterns =
     concat (map (\<lambda>(i, pattern).
                    concat (map (\<lambda>(j, occ_file).
                                   replicate (length (rows_of fs occ_file)) (int i + 1, int j + 1))
                                (enumerate 0 pattern)))
                 (enumerate 0 patterns))"

subsection \<open>Rows of plain decimal literals\<close>

text \<open>
  For concrete rows the conversions are instantiated on the strings made of an optional
  sign, digits and at most one point. \<open>float\<close> returns the value of such a literal
  whenever a binary floating-point number holds it exactly (as 1.5, 60, 33 and 0.5), and
  \<open>int\<close> returns the value of a signed string of digits. Both builtins accept more
  strings (blanks around the literal, exponents, \<open>inf\<close>, \<open>nan\<close>), which these two
  functions do not read: they stand for the builtins on plain decimal rows only.
\<close>

definition digit_val :: "char \<Rightarrow> nat option" where
  "digit_val c = map_of (zip ''0123456789'' [0, 1, 2, 3, 4, 5, 6, 7, 8, 9]) c"

fun digits_val :: "nat \<Rightarrow> string \<Rightarrow> nat option" where
  "digits_val acc [] = Some acc"
| "digits_val acc (c # cs) =
     (case digit_val c of None \<Rightarrow> None | Some v \<Rightarrow> digits_val (10 * acc + v) cs)"

definition unsigned_decimal :: "string \<Rightarrow> rat option" where
  "unsigned_decimal s =
     (case py_split CHR ''.'' s of
        [ip] \<Rightarrow> (if ip = [] then None else map_option of_nat (digits_val 0 ip))
      | [ip, fp] \<Rightarrow>
          (if ip = [] \<and> fp = [] then None
           else (case (digits_val 0 ip, digits_val 0 fp) of
                   (Some a, Some b) \<Rightarrow> Some (of_nat a + of_nat b / 10 ^ length fp)
                 | _ \<Rightarrow> None))
      | _ \<Rightarrow> None)"

definition decimal_float :: "string \<Rightarrow> rat option" where
  "decimal_float s =
     (case s of
        [] \<Rightarrow> None
      | c # cs \<Rightarrow>
          (if c = CHR ''-'' then map_option uminus (unsigned_decimal cs)
           else if c = CHR ''+'' then unsigned_decimal cs
           else unsigned_decimal s))"

definition decimal_int :: "string \<Rightarrow> int option" where
  "decimal_int s =
     (case s of
        [] \<Rightarrow> None
      | c # cs \<Rightarrow>
          (if c = CHR ''-'' then (if cs = [] then None else map_option (\<lambda>n. - int n) (digits_val 0 cs))
           else if c = CHR ''+'' then (if cs = [] then None else map_option int (digits_val 0 cs))
           else map_option int (digits_val 0 s)))"

text \<open>The fields \<open>csv.reader\<close> yields for a line without quote characters: the
  pieces between the commas, and no field at all for an empty line.\<close>

definition csv_fields :: "string \<Rightarrow> string list" where
  "csv_fields line = (if line = [] then [] else py_split CHR '','' line)"

subsection \<open>A small dataset\<close>

text \<open>
  One piece \<open>p\<close> under the root \<open>r\<close>. Its monophonic annotator \<open>X\<close> has a
  file and three pattern directories: \<open>A\<close> with two occurrences, \<open>B\<close> with none and
  \<open>C\<close> with one. Its polyphonic annotators are \<open>unknownGuy\<close>, \<open>otherGuy\<close> and
  \<open>bruhn\<close>, in this order, each with one pattern of one occurrence. No other pattern
  matches anything, no other path is a directory or a file.
\<close>

definition demo_globs :: "(string \<times> string list) list" where
  "demo_globs =
     [(''r/groundTruth/*'', [''r/groundTruth/p'']),
      (''r/groundTruth/p/monophonic/repeatedPatterns/*'',
         [''r/groundTruth/p/monophonic/repeatedPatterns/X'']),
      (''r/groundTruth/p/monophonic/repeatedPatterns/X/*'',
         [''r/groundTruth/p/monophonic/repeatedPatterns/X/readme.txt'',
          ''r/groundTruth/p/monophonic/repeatedPatterns/X/A'',
          ''r/groundTruth/p/monophonic/repeatedPatterns/X/B'',
          ''r/groundTruth/p/monophonic/repeatedPatterns/X/C'']),
      (''r/groundTruth/p/monophonic/repeatedPatterns/X/A/occurrences/csv/*.csv'',
         [''r/groundTruth/p/monophonic/repeatedPatterns/X/A/occurrences/csv/occ1.csv'',
          ''r/groundTruth/p/monophonic/repeatedPatterns/X/A/occurrences/csv/occ2.csv'']),
      (''r/groundTruth/p/monophonic/repeatedPatterns/X/C/occurrences/csv/*.csv'',
         [''r/groundTruth/p/monophonic/repeatedPatterns/X/C/occurrences/csv/occ1.csv'']),
      (''r/groundTruth/p/polyphonic/repeatedPatterns/*'',
         [''r/groundTruth/p/polyphonic/repeatedPatterns/unknownGuy'',
          ''r/groundTruth/p/polyphonic/repeatedPatterns/otherGuy'',
          ''r/groundTruth/p/polyphonic/repeatedPatterns/bruhn'']),
      (''r/groundTruth/p/polyphonic/repeatedPatterns/unknownGuy/*'',
         [''r/groundTruth/p/polyphonic/repeatedPatterns/unknownGuy/A'']),
      (''r/groundTruth/p/polyphonic/repeatedPatterns/otherGuy/*'',
         [''r/groundTruth/p/polyphonic/repeatedPatterns/otherGuy/A'']),
      (''r/groundTruth/p/polyphonic/repeatedPatterns/bruhn/*'',
         [''r/groundTruth/p/polyphonic/repeatedPatterns/bruhn/A'']),
      (''r/groundTruth/p/polyphonic/repeatedPatterns/unknownGuy/A/occurrences/csv/*.csv'',
         [''r/groundTruth/p/polyphonic/repeatedPatterns/unknownGuy/A/occurrences/csv/occ1.csv'']),
      (''r/groundTruth/p/polyphonic/repeatedPatterns/otherGuy/A/occurrences/csv/*.csv'',
         [''r/groundTruth/p/polyphonic/repeatedPatterns/otherGuy/A/occurrences/csv/occ1.csv'']),
      (''r/groundTruth/p/polyphonic/repeatedPatterns/bruhn/A/occurrences/csv/*.csv'',
         [''r/groundTruth/p/polyphonic/repeatedPatterns/bruhn/A/occurrences/csv/occ1.csv''])]"

definition demo_dirs :: "string list" where
  "demo_dirs =
     [''r/groundTruth/p/monophonic/repeatedPatterns/X/A'',
      ''r/groundTruth/p/monophonic/repeatedPatterns/X/B'',
      ''r/groundTruth/p/monophonic/repeatedPatterns/X/C'',
      ''r/groundTruth/p/polyphonic/repeatedPatterns/unknownGuy/A'',
      ''r/groundTruth/p/polyphonic/repeatedPatterns/otherGuy/A'',
      ''r/groundTruth/p/polyphonic/repeatedPatterns/bruhn/A'']"

text \<open>The lines of the occurrence files.\<close>

definition demo_files :: "(string \<times> string list) list" where
  "demo_files =
     [(''r/groundTruth/p/monophonic/repeatedPatterns/X/A/occurrences/csv/occ1.csv'',
         [''1.5,60,33,0.5,1'', ''2,62,34,0.5,1'']),
      (''r/groundTruth/p/monophonic/repeatedPatterns/X/A/occurrences/csv/occ2.csv'',
         [''9.5,60,33,0.5,1'']),
      (''r/groundTruth/p/monophonic/repeatedPatterns/X/C/occurrences/csv/occ1.csv'',
         [''4,67,37,1,0'']),
      (''r/groundTruth/p/polyphonic/repeatedPatterns/unknownGuy/A/occurrences/csv/occ1.csv'',
         [''0,50,27,1,2'']),
      (''r/groundTruth/p/polyphonic/repeatedPatterns/otherGuy/A/occurrences/csv/occ1.csv'',
         [''0,51,28,1,2'']),
      (''r/groundTruth/p/polyphonic/repeatedPatterns/bruhn/A/occurrences/csv/occ1.csv'',
         [''0,52,29,1,2''])]"

definition demo_fs :: filesystem where
  "demo_fs =
     \<lparr>glob = (\<lambda>pat. case map_of demo_globs pat of None \<Rightarrow> [] | Some found \<Rightarrow> found),
      isdir = (\<lambda>path. path \<in> set demo_dirs),
      read_csv = (\<lambda>file. map_option (map csv_fields) (map_of demo_files file))\<rparr>"

text \<open>The same dataset with a row of four columns in the occurrence file of the
  polyphonic annotator \<open>bruhn\<close>.\<close>

definition broken_fs :: filesystem where
  "broken_fs =
     demo_fs\<lparr>read_csv :=
       (read_csv demo_fs)
         (''r/groundTruth/p/polyphonic/repeatedPatterns/bruhn/A/occurrences/csv/occ1.csv''
            := Some [csv_fields ''0,52,29,1''])\<rparr>"

text \<open>An observation, its values in the order of the columns of a row, then the
  number of the pattern and the number of the occurrence.\<close>

definition demo_obs :: "rat \<Rightarrow> rat \<Rightarrow> rat \<Rightarrow> rat \<Rightarrow> int \<Rightarrow> int \<Rightarrow> int \<Rightarrow> rat observation" where
  "demo_obs t mp mo du st p n =
     \<lparr>time = t, duration = du,
      val = \<lparr>midi_pitch = mp, morph_pitch = mo, staff = st, pattern_id = p, occurrence_id = n\<rparr>\<rparr>"

text \<open>The pattern lists of the dataset and the observations of their rows.\<close>

definition demo_mono :: "string list list" where
  "demo_mono =
     [[''r/groundTruth/p/monophonic/repeatedPatterns/X/A/occurrences/csv/occ1.csv'',
       ''r/groundTruth/p/monophonic/repeatedPatterns/X/A/occurrences/csv/occ2.csv''],
      [],
      [''r/groundTruth/p/monophonic/repeatedPatterns/X/C/occurrences/csv/occ1.csv'']]"

definition demo_poly :: "string list list" where
  "demo_poly =
     [[''r/groundTruth/p/polyphonic/repeatedPatterns/otherGuy/A/occurrences/csv/occ1.csv''],
      [''r/groundTruth/p/polyphonic/repeatedPatterns/bruhn/A/occurrences/csv/occ1.csv'']]"

definition demo_mono_obs :: "rat observation list" where
  "demo_mono_obs =
     [demo_obs 1.5 60 33 0.5 1 1 1, demo_obs 2 62 34 0.5 1 1 1, demo_obs 9.5 60 33 0.5 1 1 2,
      demo_obs 4 67 37 1 0 3 1]"

definition demo_poly_obs :: "rat observation list" where
  "demo_poly_obs = [demo_obs 0 51 28 1 2 1 1, demo_obs 0 52 29 1 2 2 1]"

subsection \<open>A dataset of two pieces\<close>

text \<open>
  Two pieces \<open>p\<close> and \<open>q\<close> under the root \<open>s\<close>, each with the monophonic
  annotator \<open>X\<close> and the polyphonic annotator \<open>bruhn\<close>, each annotator with one
  pattern \<open>A\<close> of one occurrence of one row.
\<close>

definition duo_globs :: "(string \<times> string list) list" where
  "duo_globs =
     [(''s/groundTruth/*'', [''s/groundTruth/p'', ''s/groundTruth/q'']),
      (''s/groundTruth/p/monophonic/repeatedPatterns/*'',
         [''s/groundTruth/p/monophonic/repeatedPatterns/X'']),
      (''s/groundTruth/p/monophonic/repeatedPatterns/X/*'',
         [''s/groundTruth/p/monophonic/repeatedPatterns/X/A'']),
      (''s/groundTruth/p/monophonic/repeatedPatterns/X/A/occurrences/csv/*.csv'',
         [''s/groundTruth/p/monophonic/repeatedPatterns/X/A/occurrences/csv/occ1.csv'']),
      (''s/groundTruth/p/polyphonic/repeatedPatterns/*'',
         [''s/groundTruth/p/polyphonic/repeatedPatterns/bruhn'']),
      (''s/groundTruth/p/polyphonic/repeatedPatterns/bruhn/*'',
         [''s/groundTruth/p/polyphonic/repeatedPatterns/bruhn/A'']),
      (''s/groundTruth/p/polyphonic/repeatedPatterns/bruhn/A/occurrences/csv/*.csv'',
         [''s/groundTruth/p/polyphonic/repeatedPatterns/bruhn/A/occurrences/csv/occ1.csv'']),
      (''s/groundTruth/q/monophonic/repeatedPatterns/*'',
         [''s/groundTruth/q/monophonic/repeatedPatterns/X'']),
      (''s/groundTruth/q/monophonic/repeatedPatterns/X/*'',
         [''s/groundTruth/q/monophonic/repeatedPatterns/X/A'']),
      (''s/groundTruth/q/monophonic/repeatedPatterns/X/A/occurrences/csv/*.csv'',
         [''s/groundTruth/q/monophonic/repeatedPatterns/X/A/occurrences/csv/occ1.csv'']),
      (''s/groundTruth/q/polyphonic/repeatedPatterns/*'',
         [''s/groundTruth/q/polyphonic/repeatedPatterns/bruhn'']),
      (''s/groundTruth/q/polyphonic/repeatedPatterns/bruhn/*'',
         [''s/groundTruth/q/polyphonic/repeatedPatterns/bruhn/A'']),
      (''s/groundTruth/q/polyphonic/repeatedPatterns/bruhn/A/occurrences/csv/*.csv'',
         [''s/groundTruth/q/polyphonic/repeatedPatterns/bruhn/A/occurrences/csv/occ1.csv''])]"

definition duo_dirs :: "string list" where
  "duo_dirs =
     [''s/groundTruth/p/monophonic/repeatedPatterns/X/A'',
      ''s/groundTruth/p/polyphonic/repeatedPatterns/bruhn/A'',
      ''s/groundTruth/q/monophonic/repeatedPatterns/X/A'',
      ''s/groundTruth/q/polyphonic/repeatedPatterns/bruhn/A'']"

definition duo_files :: "(string \<times> string list) list" where
  "duo_files =
     [(''s/groundTruth/p/monophonic/repeatedPatterns/X/A/occurrences/csv/occ1.csv'',
         [''0,60,35,1,0'']),
      (''s/groundTruth/p/polyphonic/repeatedPatterns/bruhn/A/occurrences/csv/occ1.csv'',
         [''0,61,35,1,0'']),
      (''s/groundTruth/q/monophonic/repeatedPatterns/X/A/occurrences/csv/occ1.csv'',
         [''0,62,36,1,0'']),
      (''s/groundTruth/q/polyphonic/repeatedPatterns/bruhn/A/occurrences/csv/occ1.csv'',
         [''0,63,37,1,0''])]"

definition duo_fs :: filesystem where
  "duo_fs =
     \<lparr>glob = (\<lambda>pat. case map_of duo_globs pat of None \<Rightarrow> [] | Some found \<Rightarrow> found),
      isdir = (\<lambda>path. path \<in> set duo_dirs),
      read_csv = (\<lambda>file. map_option (map csv_fields) (map_of duo_files file))\<rparr>"

text \<open>Its four pattern lists, in the order in which \<open>process\<close> builds them.\<close>

definition duo_lists :: "string list list list" where
  "duo_lists =
     [[[''s/groundTruth/p/monophonic/repeatedPatterns/X/A/occurrences/csv/occ1.csv'']],
      [[''s/groundTruth/p/polyphonic/repeatedPatterns/bruhn/A/occurrences/csv/occ1.csv'']],
      [[''s/groundTruth/q/monophonic/repeatedPatterns/X/A/occurrences/csv/occ1.csv'']],
      [[''s/groundTruth/q/polyphonic/repeatedPatterns/bruhn/A/occurrences/csv/occ1.csv'']]]"

subsection \<open>The documents of a run\<close>

text \<open>The observations a document holds.\<close>

definition document_observations :: "'f jams \<Rightarrow> 'f observation list" where
  "document_observations jam = concat (map data (annotations jam))"

text \<open>
  A pattern list gets its document saved when \<open>get_out_file\<close> returns for it and
  every occurrence file of it can be read and holds only well-formed rows; a run saves
  the documents of the pattern lists up to the first one that does not.
\<close>

definition list_ok ::
  "filesystem \<Rightarrow> (string \<Rightarrow> 'f option) \<Rightarrow> (string \<Rightarrow> int option) \<Rightarrow> string
     \<Rightarrow> string list list \<Rightarrow> bool" where
  "list_ok fs flt toint out_dir patterns =
     (\<not> isl (get_out_file patterns out_dir) \<and> well_formed fs flt toint patterns)"

definition saved_lists ::
  "filesystem \<Rightarrow> (string \<Rightarrow> 'f option) \<Rightarrow> (string \<Rightarrow> int option) \<Rightarrow> string \<Rightarrow> string
     \<Rightarrow> string list list list" where
  "saved_lists fs flt toint jku_dir out_dir =
     takeWhile (list_ok fs flt toint out_dir) (all_patterns_of fs jku_dir)"

text \<open>The pieces of a dataset, and the pattern list of a piece and a type.\<close>

definition pieces_of :: "filesystem \<Rightarrow> string \<Rightarrow> string list" where
  "pieces_of fs jku_dir = glob fs (path_join jku_dir [''groundTruth'', ''*''])"

definition type_patterns :: "filesystem \<Rightarrow> string \<Rightarrow> string \<Rightarrow> string list list" where
  "type_patterns fs piece type = spec_patterns fs (type_annotators fs piece type)"

section \<open>Properties\<close>

subsection \<open>Rows\<close>

lemma getitem_int:
  "getitem xs (int n) = (if n < length xs then Inr (xs ! n) else Inl IndexError)"
  by (simp add: getitem_def)

lemma float_field_nat:
  "float_field flt row (int n) =
     (if n < length row
      then (case flt (row ! n) of None \<Rightarrow> Inl ValueError | Some v \<Rightarrow> Inr v)
      else Inl IndexError)"
  by (simp add: float_field_def getitem_int)

lemma int_field_nat:
  "int_field toint row (int n) =
     (if n < length row
      then (case toint (row ! n) of None \<Rightarrow> Inl ValueError | Some v \<Rightarrow> Inr v)
      else Inl IndexError)"
  by (simp add: int_field_def getitem_int)

lemma float_field_error: "float_field flt row i = Inl e \<Longrightarrow> e = IndexError \<or> e = ValueError"
  by (auto simp: float_field_def getitem_def split: if_splits option.splits sum.splits)

lemma int_field_error: "int_field toint row i = Inl e \<Longrightarrow> e = IndexError \<or> e = ValueError"
  by (auto simp: int_field_def getitem_def split: if_splits option.splits sum.splits)

lemma row_observation_error:
  "row_observation flt toint p n row = Inl e \<Longrightarrow> e = IndexError \<or> e = ValueError"
  unfolding row_observation_def
  by (auto split: sum.splits dest: float_field_error int_field_error)

lemma row_observation_cols:
  assumes "5 \<le> length row"
  shows "row_observation flt toint p n row =
     (case flt (row ! 1) of None \<Rightarrow> Inl ValueError | Some mp \<Rightarrow>
      case flt (row ! 2) of None \<Rightarrow> Inl ValueError | Some mo \<Rightarrow>
      case toint (row ! 4) of None \<Rightarrow> Inl ValueError | Some st \<Rightarrow>
      case flt (row ! 0) of None \<Rightarrow> Inl ValueError | Some t \<Rightarrow>
      case flt (row ! 3) of None \<Rightarrow> Inl ValueError | Some d \<Rightarrow>
      Inr \<lparr>time = t, duration = d,
           val = \<lparr>midi_pitch = mp, morph_pitch = mo, staff = st,
                  pattern_id = p, occurrence_id = n\<rparr>\<rparr>)"
proof -
  have f: "float_field flt row 0 = float_field flt row (int 0)"
    "float_field flt row 1 = float_field flt row (int 1)"
    "float_field flt row 2 = float_field flt row (int 2)"
    "float_field flt row 3 = float_field flt row (int 3)"
    "int_field toint row 4 = int_field toint row (int 4)"
    by simp_all
  have l: "0 < length row" "1 < length row" "2 < length row" "3 < length row" "4 < length row"
    using assms by auto
  show ?thesis
    unfolding row_observation_def f float_field_nat int_field_nat
    using l by (simp split: option.splits)
qed

lemma row_observation_short:
  assumes "length row < 5"
  shows "\<exists>e. row_observation flt toint p n row = Inl e"
proof -
  have f: "int_field toint row 4 = int_field toint row (int 4)" by simp
  have "int_field toint row 4 = Inl IndexError"
    unfolding f int_field_nat using assms by simp
  then show ?thesis
    unfolding row_observation_def by (simp split: sum.splits)
qed

lemma row_observation_isr:
  "(\<exists>ob. row_observation flt toint p n row = Inr ob) \<longleftrightarrow> row_ok flt toint row"
proof (cases "5 \<le> length row")
  case True
  then show ?thesis
    by (auto simp: row_observation_cols row_ok_def split: option.splits)
next
  case False
  then have "length row < 5" by simp
  from row_observation_short [OF this, of flt toint p n] False
  show ?thesis by (auto simp: row_ok_def)
qed

lemma row_observation_ids:
  "row_observation flt toint p n row = Inr ob \<Longrightarrow> ids ob = (p, n)"
  unfolding row_observation_def ids_def
  by (auto split: sum.splits)

lemma rows_loop_ok:
  "list_all (row_ok flt toint) rows \<Longrightarrow>
   rows_loop flt toint p n rows obs = Inr (obs @ row_observations flt toint p n rows)"
proof (induction rows arbitrary: obs)
  case Nil
  show ?case by (simp add: row_observations_def)
next
  case (Cons row rows)
  from Cons.prems have "row_ok flt toint row" by simp
  then obtain ob where ob: "row_observation flt toint p n row = Inr ob"
    using row_observation_isr [of flt toint p n row] by blast
  from Cons.prems have "list_all (row_ok flt toint) rows" by simp
  from Cons.IH [OF this] ob show ?case
    by (simp add: row_observations_def)
qed

lemma rows_loop_fail:
  "\<not> list_all (row_ok flt toint) rows \<Longrightarrow>
   \<exists>e. rows_loop flt toint p n rows obs = Inl e \<and> (e = IndexError \<or> e = ValueError)"
proof (induction rows arbitrary: obs)
  case Nil
  then show ?case by simp
next
  case (Cons row rows)
  show ?case
  proof (cases "row_observation flt toint p n row")
    case (Inl e)
    with row_observation_error [OF Inl] show ?thesis by simp
  next
    case (Inr ob)
    then have "row_ok flt toint row"
      using row_observation_isr [of flt toint p n row] by blast
    with Cons.prems have "\<not> list_all (row_ok flt toint) rows" by simp
    from Cons.IH [OF this] Inr show ?thesis by simp
  qed
qed

lemma occ_loop_ok:
  "list_all (file_ok fs flt toint) pattern \<Longrightarrow>
   occ_loop fs flt toint p (int k + 1) pattern obs
     = Inr (obs @ occurrence_observations fs flt toint p k pattern)"
proof (induction pattern arbitrary: k obs)
  case Nil
  show ?case by (simp add: occurrence_observations_def)
next
  case (Cons occ_file rest)
  from Cons.prems obtain rows where rows: "read_csv fs occ_file = Some rows"
    and ok: "list_all (row_ok flt toint) rows"
    by (auto simp: file_ok_def split: option.splits)
  from Cons.prems have rest: "list_all (file_ok fs flt toint) rest" by simp
  have step: "int k + 1 + 1 = int (Suc k) + 1" by simp
  show ?case
    using rows rows_loop_ok [OF ok] Cons.IH [OF rest, of "Suc k"]
    by (simp add: step occurrence_observations_def rows_of_def del: of_nat_Suc)
qed

lemma occ_loop_fail:
  "\<not> list_all (file_ok fs flt toint) pattern \<Longrightarrow>
   \<exists>e. occ_loop fs flt toint p n pattern obs = Inl e
        \<and> (list_all (\<lambda>occ_file. read_csv fs occ_file \<noteq> None) pattern
             \<longrightarrow> e = IndexError \<or> e = ValueError)"
proof (induction pattern arbitrary: n obs)
  case Nil
  then show ?case by simp
next
  case (Cons occ_file rest)
  show ?case
  proof (cases "read_csv fs occ_file")
    case None
    then show ?thesis by simp
  next
    case (Some rows)
    show ?thesis
    proof (cases "list_all (row_ok flt toint) rows")
      case True
      with Some have "file_ok fs flt toint occ_file"
        by (simp add: file_ok_def)
      with Cons.prems have "\<not> list_all (file_ok fs flt toint) rest"
        by simp
      from Cons.IH [OF this, of "n + 1"] Some rows_loop_ok [OF True]
      show ?thesis by simp
    next
      case False
      from rows_loop_fail [OF False, of p n obs] Some
      show ?thesis by auto
    qed
  qed
qed

lemma pattern_loop_ok:
  "well_formed fs flt toint patterns \<Longrightarrow>
   pattern_loop fs flt toint (int k + 1) patterns obs
     = Inr (obs @ observations_from fs flt toint k patterns)"
proof (induction patterns arbitrary: k obs)
  case Nil
  show ?case by (simp add: observations_from_def)
next
  case (Cons pattern rest)
  from Cons.prems have ok: "list_all (file_ok fs flt toint) pattern"
    and rest: "well_formed fs flt toint rest"
    by (simp_all add: well_formed_def)
  have step: "int k + 1 + 1 = int (Suc k) + 1" by simp
  have one: "(1::int) = int 0 + 1" by simp
  have "occ_loop fs flt toint (int k + 1) 1 pattern obs
     = Inr (obs @ occurrence_observations fs flt toint (int k + 1) 0 pattern)"
    unfolding one [symmetric] using occ_loop_ok [OF ok, of "int k + 1" 0 obs] by simp
  then show ?case
    using Cons.IH [OF rest, of "Suc k"]
    by (simp add: step observations_from_def del: of_nat_Suc)
qed

lemma pattern_loop_fail:
  "\<not> well_formed fs flt toint patterns \<Longrightarrow>
   \<exists>e. pattern_loop fs flt toint p patterns obs = Inl e
        \<and> (readable fs patterns \<longrightarrow> e = IndexError \<or> e = ValueError)"
proof (induction patterns arbitrary: p obs)
  case Nil
  then show ?case by (simp add: well_formed_def)
next
  case (Cons pattern rest)
  show ?case
  proof (cases "list_all (file_ok fs flt toint) pattern")
    case True
    with Cons.prems have "\<not> well_formed fs flt toint rest"
      by (simp add: well_formed_def)
    from Cons.IH [OF this, of "p + 1"]
    have "\<exists>e. pattern_loop fs flt toint (p + 1) rest
                (obs @ occurrence_observations fs flt toint p 0 pattern) = Inl e
            \<and> (readable fs rest \<longrightarrow> e = IndexError \<or> e = ValueError)" .
    moreover have "occ_loop fs flt toint p 1 pattern obs
       = Inr (obs @ occurrence_observations fs flt toint p 0 pattern)"
      using occ_loop_ok [OF True, of p 0 obs] by simp
    ultimately show ?thesis
      by (auto simp: readable_def)
  next
    case False
    from occ_loop_fail [OF False, of p 1 obs]
    show ?thesis by (auto simp: readable_def)
  qed
qed

subsection \<open>The loops\<close>

lemma parse_patterns_ok:
  assumes "well_formed fs flt toint patterns"
  shows "parse_patterns fs flt toint patterns out_file d
     = (None, d @ [(''test.jams'', jam_of (spec_observations fs flt toint patterns))])"
proof -
  have "pattern_loop fs flt toint (int 0 + 1) patterns []
     = Inr ([] @ observations_from fs flt toint 0 patterns)"
    using assms by (rule pattern_loop_ok)
  then show ?thesis
    by (simp add: parse_patterns_def spec_observations_def)
qed

lemma parse_patterns_fail:
  assumes "\<not> well_formed fs flt toint patterns"
  shows "\<exists>e. parse_patterns fs flt toint patterns out_file d = (Some e, d)
            \<and> (readable fs patterns \<longrightarrow> e = IndexError \<or> e = ValueError)"
  using pattern_loop_fail [OF assms, of 1 "[]"]
  by (auto simp: parse_patterns_def)

lemma gt_pattern_loop_eq:
  "gt_pattern_loop fs patterns P
     = P @ map (occurrence_files fs) (filter (isdir fs) patterns)"
  by (induction patterns arbitrary: P) (simp_all add: occurrence_files_def Let_def)

lemma gt_annotator_loop_eq:
  "gt_annotator_loop fs annotators P = P @ spec_patterns fs annotators"
  by (induction annotators arbitrary: P)
     (simp_all add: spec_patterns_def pattern_dirs_def gt_pattern_loop_eq Let_def)

lemma get_gt_patterns_eq: "get_gt_patterns fs annotators = spec_patterns fs annotators"
  by (simp add: get_gt_patterns_def gt_annotator_loop_eq)

lemma type_loop_eq:
  "type_loop fs piece tys all_patterns
     = all_patterns @ map (\<lambda>type. get_gt_patterns fs (type_annotators fs piece type)) tys"
  by (induction tys arbitrary: all_patterns) simp_all

lemma piece_loop_eq:
  "piece_loop fs pieces all_patterns
     = all_patterns
       @ concat (map (\<lambda>piece. map (\<lambda>type. get_gt_patterns fs (type_annotators fs piece type))
                                   types) pieces)"
  by (induction pieces arbitrary: all_patterns) (simp_all add: type_loop_eq)

lemma save_loop_ok:
  assumes "list_all (\<lambda>patterns. \<not> isl (get_out_file patterns out_dir)
                       \<and> well_formed fs flt toint patterns) all_patterns"
  shows "save_loop fs flt toint out_dir all_patterns d
     = (None, d @ map (\<lambda>patterns. (''test.jams'', jam_of (spec_observations fs flt toint patterns)))
                      all_patterns)"
  using assms
proof (induction all_patterns arbitrary: d)
  case Nil
  show ?case by simp
next
  case (Cons patterns rest)
  from Cons.prems obtain out_file where "get_out_file patterns out_dir = Inr out_file"
    by (cases "get_out_file patterns out_dir") simp_all
  moreover from Cons.prems have "well_formed fs flt toint patterns" by simp
  moreover from Cons.prems have "list_all (\<lambda>patterns. \<not> isl (get_out_file patterns out_dir)
                       \<and> well_formed fs flt toint patterns) rest" by simp
  ultimately show ?case
    using Cons.IH by (simp add: parse_patterns_ok)
qed

lemma save_loop_None:
  assumes "save_loop fs flt toint out_dir all_patterns d = (None, d')"
  shows "list_all (\<lambda>patterns. \<not> isl (get_out_file patterns out_dir)
                       \<and> well_formed fs flt toint patterns) all_patterns"
  using assms
proof (induction all_patterns arbitrary: d)
  case Nil
  show ?case by simp
next
  case (Cons patterns rest)
  from Cons.prems obtain out_file where out: "get_out_file patterns out_dir = Inr out_file"
    by (cases "get_out_file patterns out_dir") simp_all
  have wf: "well_formed fs flt toint patterns"
  proof (rule ccontr)
    assume "\<not> well_formed fs flt toint patterns"
    from parse_patterns_fail [OF this, of out_file d] Cons.prems out
    show False by auto
  qed
  from Cons.prems out parse_patterns_ok [OF wf, of out_file d]
  have "save_loop fs flt toint out_dir rest
          (d @ [(''test.jams'', jam_of (spec_observations fs flt toint patterns))]) = (None, d')"
    by simp
  from Cons.IH [OF this] out wf show ?case by simp
qed

subsection \<open>Splitting a path\<close>

lemma py_split_nonempty: "py_split sep s \<noteq> []"
  by (induction s) (auto split: list.splits)

lemma py_split_no_sep: "w \<in> set (py_split sep s) \<Longrightarrow> sep \<notin> set w"
proof (induction s arbitrary: w)
  case Nil
  then show ?case by simp
next
  case (Cons c cs)
  show ?case
  proof (cases "c = sep")
    case True
    with Cons show ?thesis by auto
  next
    case False
    obtain v vs where v: "py_split sep cs = v # vs"
      using py_split_nonempty [of sep cs] by (cases "py_split sep cs") auto
    with Cons.prems False have "w = c # v \<or> w \<in> set vs" by simp
    with Cons.IH [of v] Cons.IH [of w] v False show ?thesis by auto
  qed
qed

lemma py_index_first:
  "x \<notin> set pre \<Longrightarrow> py_index (pre @ x # post) x = Inr (int (length pre))"
  by (induction pre) auto

subsection \<open>The observations of a pattern list\<close>

lemma row_observations_map:
  "list_all (row_ok flt toint) rows \<Longrightarrow>
   map Inr (row_observations flt toint p n rows) = map (row_observation flt toint p n) rows"
proof (induction rows)
  case Nil
  show ?case by (simp add: row_observations_def)
next
  case (Cons row rows)
  from Cons.prems have "row_ok flt toint row" by simp
  then obtain ob where "row_observation flt toint p n row = Inr ob"
    using row_observation_isr [of flt toint p n row] by blast
  with Cons show ?case by (simp add: row_observations_def)
qed

lemma row_observations_ids:
  "ob \<in> set (row_observations flt toint p n rows) \<Longrightarrow> ids ob = (p, n)"
  by (auto simp: row_observations_def split: sum.splits dest: row_observation_ids [OF sym])

lemma row_observations_ids_ok:
  assumes "list_all (row_ok flt toint) rows"
  shows "map ids (row_observations flt toint p n rows) = replicate (length rows) (p, n)"
proof -
  have "length (row_observations flt toint p n rows) = length rows"
    using row_observations_map [OF assms, of p n, THEN arg_cong, of length] by simp
  moreover have "\<forall>x \<in> set (map ids (row_observations flt toint p n rows)). x = (p, n)"
    by (auto dest: row_observations_ids)
  ultimately show ?thesis
    by (metis length_map replicate_length_same)
qed

lemma occurrence_observations_ids_ok:
  "list_all (file_ok fs flt toint) pattern \<Longrightarrow>
   map ids (occurrence_observations fs flt toint p k pattern)
     = concat (map (\<lambda>(j, occ_file). replicate (length (rows_of fs occ_file)) (p, int j + 1))
                   (enumerate k pattern))"
proof (induction pattern arbitrary: k)
  case Nil
  show ?case by (simp add: occurrence_observations_def)
next
  case (Cons occ_file rest)
  from Cons.prems have "list_all (row_ok flt toint) (rows_of fs occ_file)"
    by (auto simp: file_ok_def rows_of_def split: option.splits)
  from row_observations_ids_ok [OF this]
  have "map ids (row_observations flt toint p (int k + 1) (rows_of fs occ_file))
          = replicate (length (rows_of fs occ_file)) (p, int k + 1)" .
  moreover from Cons.prems have "list_all (file_ok fs flt toint) rest" by simp
  from Cons.IH [OF this, of "Suc k"]
  have "map ids (occurrence_observations fs flt toint p (Suc k) rest)
     = concat (map (\<lambda>(j, occ_file). replicate (length (rows_of fs occ_file)) (p, int j + 1))
                   (enumerate (Suc k) rest))" .
  ultimately show ?case
    by (simp add: occurrence_observations_def del: of_nat_Suc)
qed

lemma observations_from_ids_ok:
  "well_formed fs flt toint patterns \<Longrightarrow>
   map ids (observations_from fs flt toint k patterns)
     = concat (map (\<lambda>(i, pattern).
                    concat (map (\<lambda>(j, occ_file).
                                   replicate (length (rows_of fs occ_file)) (int i + 1, int j + 1))
                                (enumerate 0 pattern)))
                 (enumerate k patterns))"
proof (induction patterns arbitrary: k)
  case Nil
  show ?case by (simp add: observations_from_def)
next
  case (Cons pattern rest)
  from Cons.prems have ok: "list_all (file_ok fs flt toint) pattern"
    and rest: "well_formed fs flt toint rest"
    by (simp_all add: well_formed_def)
  from Cons.IH [OF rest, of "Suc k"] occurrence_observations_ids_ok [OF ok, of "int k + 1" 0]
  show ?case
    by (simp add: observations_from_def del: of_nat_Suc)
qed

lemma occurrence_observations_bounds:
  assumes "ob \<in> set (occurrence_observations fs flt toint p k pattern)"
  shows "pattern_id (val ob) = p \<and> int k + 1 \<le> occurrence_id (val ob)
         \<and> occurrence_id (val ob) \<le> int k + int (length pattern)"
proof -
  from assms obtain j occ_file where j: "(j, occ_file) \<in> set (enumerate k pattern)"
    and ob: "ob \<in> set (row_observations flt toint p (int j + 1) (rows_of fs occ_file))"
    by (auto simp: occurrence_observations_def)
  from j have "k \<le> j" "j < k + length pattern"
    by (auto simp: in_set_enumerate_eq)
  with row_observations_ids [OF ob] show ?thesis
    by (simp add: ids_def)
qed

lemma observations_from_bounds:
  assumes "ob \<in> set (observations_from fs flt toint k patterns)"
  shows "int k + 1 \<le> pattern_id (val ob) \<and> pattern_id (val ob) \<le> int k + int (length patterns)
         \<and> 1 \<le> occurrence_id (val ob)"
proof -
  from assms obtain i pattern where i: "(i, pattern) \<in> set (enumerate k patterns)"
    and ob: "ob \<in> set (occurrence_observations fs flt toint (int i + 1) 0 pattern)"
    by (auto simp: observations_from_def)
  from i have "k \<le> i" "i < k + length patterns"
    by (auto simp: in_set_enumerate_eq)
  with occurrence_observations_bounds [OF ob] show ?thesis
    by simp
qed

lemma observations_from_append:
  "observations_from fs flt toint k (ps @ qs)
     = observations_from fs flt toint k ps @ observations_from fs flt toint (k + length ps) qs"
  by (simp add: observations_from_def enumerate_append_eq)

lemma observations_from_empty_pattern:
  "observations_from fs flt toint k ([] # qs) = observations_from fs flt toint (Suc k) qs"
  by (simp add: observations_from_def occurrence_observations_def)

subsection \<open>The disk\<close>

lemma on_disk_other:
  "file \<noteq> target \<Longrightarrow> on_disk (d @ map (\<lambda>x. (target, doc x)) xs) file = on_disk d file"
  by (induction xs rule: rev_induct) (simp_all add: on_disk_def)

lemma on_disk_last:
  "xs \<noteq> [] \<Longrightarrow> on_disk (d @ map (\<lambda>x. (target, doc x)) xs) target = Some (doc (last xs))"
  by (induction xs rule: rev_induct) (simp_all add: on_disk_def)

subsection \<open>The small dataset, evaluated\<close>

lemma demo_pieces: "glob demo_fs (path_join ''r'' [''groundTruth'', ''*'']) = [''r/groundTruth/p'']"
  by code_simp

lemma demo_mono_annotators:
  "type_annotators demo_fs ''r/groundTruth/p'' ''monophonic''
     = [''r/groundTruth/p/monophonic/repeatedPatterns/X'']"
  by code_simp

lemma demo_poly_annotators:
  "type_annotators demo_fs ''r/groundTruth/p'' ''polyphonic''
     = [''r/groundTruth/p/polyphonic/repeatedPatterns/otherGuy'',
        ''r/groundTruth/p/polyphonic/repeatedPatterns/bruhn'']"
  by code_simp

lemma demo_mono_patterns:
  "get_gt_patterns demo_fs [''r/groundTruth/p/monophonic/repeatedPatterns/X''] = demo_mono"
  by code_simp

lemma demo_poly_patterns:
  "get_gt_patterns demo_fs
     [''r/groundTruth/p/polyphonic/repeatedPatterns/otherGuy'',
      ''r/groundTruth/p/polyphonic/repeatedPatterns/bruhn''] = demo_poly"
  by code_simp

lemma demo_all_patterns: "all_patterns_of demo_fs ''r'' = [demo_mono, demo_poly]"
  by (simp add: all_patterns_of_def demo_pieces types_def demo_mono_annotators
        demo_poly_annotators demo_mono_patterns demo_poly_patterns)

lemma demo_mono_well_formed: "well_formed demo_fs decimal_float decimal_int demo_mono"
  by code_simp

lemma demo_poly_well_formed: "well_formed demo_fs decimal_float decimal_int demo_poly"
  by code_simp

lemma demo_mono_observations:
  "spec_observations demo_fs decimal_float decimal_int demo_mono = demo_mono_obs"
  by code_simp

lemma demo_poly_observations:
  "spec_observations demo_fs decimal_float decimal_int demo_poly = demo_poly_obs"
  by code_simp

lemma demo_mono_out_file: "get_out_file demo_mono ''out'' = Inr ''out/p-monophonic.txt''"
  by code_simp

lemma demo_poly_out_file: "get_out_file demo_poly ''out'' = Inr ''out/p-polyphonic.txt''"
  by code_simp

lemma demo_process:
  "process demo_fs decimal_float decimal_int ''r'' ''out'' []
     = (None, [(''test.jams'', jam_of demo_mono_obs), (''test.jams'', jam_of demo_poly_obs)])"
  by (simp add: process_def demo_all_patterns demo_mono_out_file demo_poly_out_file
        parse_patterns_ok demo_mono_well_formed demo_poly_well_formed
        demo_mono_observations demo_poly_observations)

subsection \<open>The run of \<open>process\<close>\<close>

lemma process_None:
  assumes "process fs flt toint jku_dir out_dir d = (None, d')"
  shows "d' = d @ map (\<lambda>patterns. (''test.jams'', jam_of (spec_observations fs flt toint patterns)))
                     (all_patterns_of fs jku_dir)"
proof -
  from assms have s: "save_loop fs flt toint out_dir (all_patterns_of fs jku_dir) d = (None, d')"
    by (simp add: process_def)
  from save_loop_ok [OF save_loop_None [OF s], of d] s show ?thesis by simp
qed

lemma length_concat_pairs: "length (concat (map (\<lambda>x. [f x, g x]) xs)) = 2 * length xs"
  by (induction xs) simp_all

subsection \<open>The documents a run saves\<close>

lemma document_observations_jam_of: "document_observations (jam_of obs) = obs"
  by (simp add: document_observations_def jam_of_def)

lemma save_loop_append:
  "save_loop fs flt toint out_dir (xs @ ys) d
     = (case save_loop fs flt toint out_dir xs d of
          (None, d') \<Rightarrow> save_loop fs flt toint out_dir ys d'
        | (Some e, d') \<Rightarrow> (Some e, d'))"
proof (induction xs arbitrary: d)
  case Nil
  show ?case by simp
next
  case (Cons patterns rest)
  show ?case
  proof (cases "get_out_file patterns out_dir")
    case (Inl e)
    then show ?thesis by simp
  next
    case (Inr out_file)
    obtain r d1 where p: "parse_patterns fs flt toint patterns out_file d = (r, d1)"
      by (cases "parse_patterns fs flt toint patterns out_file d")
    show ?thesis
    proof (cases r)
      case None
      with Inr p Cons.IH [of d1] show ?thesis by simp
    next
      case (Some e)
      with Inr p show ?thesis by simp
    qed
  qed
qed

lemma save_loop_saved:
  "snd (save_loop fs flt toint out_dir all_patterns d)
     = d @ map (\<lambda>patterns. (''test.jams'', jam_of (spec_observations fs flt toint patterns)))
               (takeWhile (list_ok fs flt toint out_dir) all_patterns)"
proof (induction all_patterns arbitrary: d)
  case Nil
  show ?case by simp
next
  case (Cons patterns rest)
  show ?case
  proof (cases "get_out_file patterns out_dir")
    case (Inl e)
    then show ?thesis by (simp add: list_ok_def)
  next
    case (Inr out_file)
    show ?thesis
    proof (cases "well_formed fs flt toint patterns")
      case True
      with Inr parse_patterns_ok [OF True, of out_file d] Cons.IH
      show ?thesis by (simp add: list_ok_def)
    next
      case False
      with parse_patterns_fail [OF False, of out_file d] Inr
      show ?thesis by (auto simp: list_ok_def)
    qed
  qed
qed

lemma save_loop_fst:
  "fst (save_loop fs flt toint out_dir all_patterns d) = None
     \<longleftrightarrow> list_all (list_ok fs flt toint out_dir) all_patterns"
proof (induction all_patterns arbitrary: d)
  case Nil
  show ?case by simp
next
  case (Cons patterns rest)
  show ?case
  proof (cases "get_out_file patterns out_dir")
    case (Inl e)
    then show ?thesis by (simp add: list_ok_def)
  next
    case (Inr out_file)
    show ?thesis
    proof (cases "well_formed fs flt toint patterns")
      case True
      with Inr parse_patterns_ok [OF True, of out_file d] Cons.IH
      show ?thesis by (simp add: list_ok_def)
    next
      case False
      with parse_patterns_fail [OF False, of out_file d] Inr
      show ?thesis by (auto simp: list_ok_def)
    qed
  qed
qed

lemma all_patterns_of_eq:
  "all_patterns_of fs jku_dir
     = concat (map (\<lambda>piece. map (type_patterns fs piece) types) (pieces_of fs jku_dir))"
proof -
  have "type_patterns fs piece = (\<lambda>type. spec_patterns fs (type_annotators fs piece type))"
    for piece
    by (rule ext) (simp add: type_patterns_def)
  then show ?thesis
    by (simp add: all_patterns_of_def piece_loop_eq pieces_of_def get_gt_patterns_eq)
qed

lemma last_all_patterns:
  assumes "pieces_of fs jku_dir \<noteq> []"
  shows "last (all_patterns_of fs jku_dir)
     = type_patterns fs (last (pieces_of fs jku_dir)) ''polyphonic''"
proof -
  from assms obtain ps piece where ps: "pieces_of fs jku_dir = ps @ [piece]"
    by (cases "pieces_of fs jku_dir" rule: rev_cases) auto
  then show ?thesis
    by (simp add: all_patterns_of_eq types_def)
qed

lemma process_saved:
  "snd (process fs flt toint jku_dir out_dir d)
     = d @ map (\<lambda>patterns. (''test.jams'', jam_of (spec_observations fs flt toint patterns)))
               (saved_lists fs flt toint jku_dir out_dir)"
  by (simp add: process_def saved_lists_def save_loop_saved)

lemma process_fst:
  "fst (process fs flt toint jku_dir out_dir d) = None
     \<longleftrightarrow> saved_lists fs flt toint jku_dir out_dir = all_patterns_of fs jku_dir"
  by (simp add: process_def saved_lists_def save_loop_fst takeWhile_eq_all_conv list_all_iff)

lemma list_ok_rows:
  assumes "list_ok fs flt toint out_dir patterns"
    and "pattern \<in> set patterns" and "occ_file \<in> set pattern"
  shows "map Inr (row_observations flt toint p n (rows_of fs occ_file))
           = map (row_observation flt toint p n) (rows_of fs occ_file)"
proof -
  from assms have "file_ok fs flt toint occ_file"
    by (auto simp: list_ok_def well_formed_def list_all_iff)
  then have "list_all (row_ok flt toint) (rows_of fs occ_file)"
    by (auto simp: file_ok_def rows_of_def split: option.splits)
  then show ?thesis by (rule row_observations_map)
qed

lemma list_ok_nonempty: "list_ok fs flt toint out_dir patterns \<Longrightarrow> patterns \<noteq> []"
  by (auto simp: list_ok_def get_out_file_def)

lemma demo_saved_lists:
  "saved_lists demo_fs decimal_float decimal_int ''r'' ''out'' = [demo_mono, demo_poly]"
  by (simp add: saved_lists_def demo_all_patterns list_ok_def demo_mono_out_file
        demo_poly_out_file demo_mono_well_formed demo_poly_well_formed)

lemma demo_pieces_of: "pieces_of demo_fs ''r'' = [''r/groundTruth/p'']"
  by (simp add: pieces_of_def demo_pieces)

lemma duo_pieces_of: "pieces_of duo_fs ''s'' = [''s/groundTruth/p'', ''s/groundTruth/q'']"
  by code_simp

lemma duo_all_patterns: "all_patterns_of duo_fs ''s'' = duo_lists"
  by code_simp

lemma duo_process:
  "process duo_fs decimal_float decimal_int ''s'' ''out'' []
     = (None, [(''test.jams'', jam_of [demo_obs 0 60 35 1 0 1 1]),
               (''test.jams'', jam_of [demo_obs 0 61 35 1 0 1 1]),
               (''test.jams'', jam_of [demo_obs 0 62 36 1 0 1 1]),
               (''test.jams'', jam_of [demo_obs 0 63 37 1 0 1 1])])"
  by code_simp

lemma duo_out_files:
  "map (\<lambda>patterns. get_out_file patterns ''out'') duo_lists
     = [Inr ''out/p-monophonic.txt'', Inr ''out/p-polyphonic.txt'',
        Inr ''out/q-monophonic.txt'', Inr ''out/q-polyphonic.txt'']"
  by code_simp

lemma duo_q_observations:
  "spec_observations duo_fs decimal_float decimal_int
      (type_patterns duo_fs ''s/groundTruth/q'' ''monophonic'') = [demo_obs 0 62 36 1 0 1 1]"
  "spec_observations duo_fs decimal_float decimal_int
      (type_patterns duo_fs ''s/groundTruth/q'' ''polyphonic'') = [demo_obs 0 63 37 1 0 1 1]"
  by code_simp+

lemma broken_all_patterns: "all_patterns_of broken_fs ''r'' = [demo_mono, demo_poly]"
  by code_simp

lemma broken_mono_ok: "list_ok broken_fs decimal_float decimal_int ''out'' demo_mono"
  by code_simp

lemma broken_mono_observations:
  "spec_observations broken_fs decimal_float decimal_int demo_mono = demo_mono_obs"
  by code_simp

lemma broken_parse:
  "parse_patterns broken_fs decimal_float decimal_int demo_poly ''out/p-polyphonic.txt'' []
     = (Some IndexError, [])"
  by code_simp

lemma on_disk_saved:
  "on_disk (d @ map (\<lambda>x. (target, doc x)) xs) target
     = (if xs = [] then on_disk d target else Some (doc (last xs)))"
  by (cases "xs = []") (simp_all add: on_disk_last)

section \<open>The claims\<close>

text \<open>
  Claim C1, amended. \<open>process\<close> builds one pattern list for every piece and
  annotation type, from the annotators it keeps for that type, and every document a run
  saves is the document of one of these lists, in their order. Such a list has at least
  one pattern, and its document holds exactly the observations of the rows of the
  occurrence files under these annotators: the pattern directories of the annotators in
  order, within a pattern its occurrence files in order, within a file its rows in
  order, one observation for every row.
\<close>

theorem document_contents:
  "all_patterns_of fs jku_dir
     = concat (map (\<lambda>piece. map (type_patterns fs piece) types) (pieces_of fs jku_dir))
   \<and> saved_lists fs flt toint jku_dir out_dir
       = take (length (saved_lists fs flt toint jku_dir out_dir)) (all_patterns_of fs jku_dir)
   \<and> snd (process fs flt toint jku_dir out_dir d)
       = d @ map (\<lambda>patterns. (''test.jams'', jam_of (spec_observations fs flt toint patterns)))
                 (saved_lists fs flt toint jku_dir out_dir)
   \<and> map (\<lambda>(f, jam). document_observations jam)
         (drop (length d) (snd (process fs flt toint jku_dir out_dir d)))
       = map (spec_observations fs flt toint) (saved_lists fs flt toint jku_dir out_dir)
   \<and> (\<forall>patterns \<in> set (saved_lists fs flt toint jku_dir out_dir).
         patterns \<noteq> []
         \<and> (\<forall>pattern \<in> set patterns. \<forall>occ_file \<in> set pattern. \<forall>p n.
               map Inr (row_observations flt toint p n (rows_of fs occ_file))
                 = map (row_observation flt toint p n) (rows_of fs occ_file)))"
proof (intro conjI ballI allI)
  show "all_patterns_of fs jku_dir
     = concat (map (\<lambda>piece. map (type_patterns fs piece) types) (pieces_of fs jku_dir))"
    by (rule all_patterns_of_eq)
  show "saved_lists fs flt toint jku_dir out_dir
       = take (length (saved_lists fs flt toint jku_dir out_dir)) (all_patterns_of fs jku_dir)"
    unfolding saved_lists_def by (rule takeWhile_eq_take)
  show saved: "snd (process fs flt toint jku_dir out_dir d)
       = d @ map (\<lambda>patterns. (''test.jams'', jam_of (spec_observations fs flt toint patterns)))
                 (saved_lists fs flt toint jku_dir out_dir)"
    by (rule process_saved)
  show "map (\<lambda>(f, jam). document_observations jam)
         (drop (length d) (snd (process fs flt toint jku_dir out_dir d)))
       = map (spec_observations fs flt toint) (saved_lists fs flt toint jku_dir out_dir)"
    unfolding saved by (simp add: document_observations_jam_of comp_def)
next
  fix patterns assume "patterns \<in> set (saved_lists fs flt toint jku_dir out_dir)"
  then have ok: "list_ok fs flt toint out_dir patterns"
    unfolding saved_lists_def by (rule set_takeWhileD [THEN conjunct2])
  then show "patterns \<noteq> []" by (rule list_ok_nonempty)
  fix pattern occ_file p n
  assume "pattern \<in> set patterns" and "occ_file \<in> set pattern"
  with ok show "map Inr (row_observations flt toint p n (rows_of fs occ_file))
                 = map (row_observation flt toint p n) (rows_of fs occ_file)"
    by (rule list_ok_rows)
qed

text \<open>The small dataset: the monophonic and the polyphonic document of its piece.\<close>

theorem document_contents_witness:
  "all_patterns_of demo_fs ''r''
     = [type_patterns demo_fs ''r/groundTruth/p'' ''monophonic'',
        type_patterns demo_fs ''r/groundTruth/p'' ''polyphonic'']
   \<and> map (\<lambda>(f, jam). document_observations jam)
         (snd (process demo_fs decimal_float decimal_int ''r'' ''out'' []))
       = [demo_mono_obs, demo_poly_obs]
   \<and> demo_mono \<noteq> [] \<and> demo_poly \<noteq> []"
proof -
  note t = document_contents [where fs = demo_fs and flt = decimal_float
      and toint = decimal_int and jku_dir = "''r''" and out_dir = "''out''" and d = "[]"]
  from t have "all_patterns_of demo_fs ''r''
     = concat (map (\<lambda>piece. map (type_patterns demo_fs piece) types) (pieces_of demo_fs ''r''))"
    by (rule conjunct1)
  then have a: "all_patterns_of demo_fs ''r''
     = [type_patterns demo_fs ''r/groundTruth/p'' ''monophonic'',
        type_patterns demo_fs ''r/groundTruth/p'' ''polyphonic'']"
    by (simp add: demo_pieces_of types_def)
  from t have "map (\<lambda>(f, jam). document_observations jam)
         (drop (length ([] :: rat disk))
            (snd (process demo_fs decimal_float decimal_int ''r'' ''out'' [])))
       = map (spec_observations demo_fs decimal_float decimal_int)
           (saved_lists demo_fs decimal_float decimal_int ''r'' ''out'')"
    by blast
  then have b: "map (\<lambda>(f, jam). document_observations jam)
         (snd (process demo_fs decimal_float decimal_int ''r'' ''out'' []))
       = [demo_mono_obs, demo_poly_obs]"
    by (simp add: demo_saved_lists demo_mono_observations demo_poly_observations)
  from t have "\<forall>patterns \<in> set (saved_lists demo_fs decimal_float decimal_int ''r'' ''out'').
      patterns \<noteq> []"
    by blast
  then have c: "demo_mono \<noteq> [] \<and> demo_poly \<noteq> []"
    by (simp add: demo_saved_lists)
  from a b c show ?thesis by blast
qed

text \<open>Claim C1 as stated fails on the small dataset. The valid annotators of its piece are
  \<open>X\<close> (monophonic) and \<open>bruhn\<close> (polyphonic), with five rows in their occurrence
  files; the run saves a document of four observations and a document of two, and none
  that holds the five.\<close>

theorem piece_documents_counterexample:
  "pieces_of demo_fs ''r'' = [''r/groundTruth/p'']
   \<and> map (\<lambda>(f, jam). document_observations jam)
         (snd (process demo_fs decimal_float decimal_int ''r'' ''out'' []))
       = [demo_mono_obs, demo_poly_obs]
   \<and> length demo_mono_obs = 4 \<and> length demo_poly_obs = 2
   \<and> length (concat (map (rows_of demo_fs)
        (concat (spec_patterns demo_fs
           [''r/groundTruth/p/monophonic/repeatedPatterns/X'',
            ''r/groundTruth/p/polyphonic/repeatedPatterns/bruhn''])))) = 5"
proof -
  have "length (concat (map (rows_of demo_fs)
        (concat (spec_patterns demo_fs
           [''r/groundTruth/p/monophonic/repeatedPatterns/X'',
            ''r/groundTruth/p/polyphonic/repeatedPatterns/bruhn''])))) = 5"
    by code_simp
  with demo_process demo_pieces_of show ?thesis
    by (simp add: document_observations_jam_of demo_mono_obs_def demo_poly_obs_def)
qed

text \<open>
  Claim C2 at the small dataset. The loop removes \<open>unknownGuy\<close> at position 0, which
  moves \<open>otherGuy\<close> to position 0; the loop goes on at position 1 and never tests it.
  \<open>otherGuy\<close> is not a valid annotator, yet the row of its occurrence file is the
  first observation of the polyphonic document.
\<close>

theorem filter_skips_annotator:
  "remove_loop 0
     [''r/groundTruth/p/polyphonic/repeatedPatterns/unknownGuy'',
      ''r/groundTruth/p/polyphonic/repeatedPatterns/otherGuy'',
      ''r/groundTruth/p/polyphonic/repeatedPatterns/bruhn'']
     = [''r/groundTruth/p/polyphonic/repeatedPatterns/otherGuy'',
        ''r/groundTruth/p/polyphonic/repeatedPatterns/bruhn'']
   \<and> path_tail ''r/groundTruth/p/polyphonic/repeatedPatterns/otherGuy'' \<notin> set valid_annotators
   \<and> read_csv demo_fs
        ''r/groundTruth/p/polyphonic/repeatedPatterns/otherGuy/A/occurrences/csv/occ1.csv''
       = Some [[''0'', ''51'', ''28'', ''1'', ''2'']]
   \<and> process demo_fs decimal_float decimal_int ''r'' ''out'' []
       = (None, [(''test.jams'', jam_of demo_mono_obs),
                 (''test.jams'', jam_of [demo_obs 0 51 28 1 2 1 1, demo_obs 0 52 29 1 2 2 1])])"
proof -
  have "remove_loop 0
     [''r/groundTruth/p/polyphonic/repeatedPatterns/unknownGuy'',
      ''r/groundTruth/p/polyphonic/repeatedPatterns/otherGuy'',
      ''r/groundTruth/p/polyphonic/repeatedPatterns/bruhn'']
     = [''r/groundTruth/p/polyphonic/repeatedPatterns/otherGuy'',
        ''r/groundTruth/p/polyphonic/repeatedPatterns/bruhn'']"
    by code_simp
  moreover have "path_tail ''r/groundTruth/p/polyphonic/repeatedPatterns/otherGuy''
      \<notin> set valid_annotators"
    by code_simp
  moreover have "read_csv demo_fs
        ''r/groundTruth/p/polyphonic/repeatedPatterns/otherGuy/A/occurrences/csv/occ1.csv''
       = Some [[''0'', ''51'', ''28'', ''1'', ''2'']]"
    by code_simp
  ultimately show ?thesis
    using demo_process by (simp add: demo_poly_obs_def)
qed

text \<open>
  Claim C3, amended. Every piece gives two pattern lists, the monophonic one and then the
  polyphonic one; each is the flat list of the patterns of the annotators kept for that
  type. In a run that raises nothing the builder is called once on every list, in this
  order, which makes two documents for a piece.
\<close>

theorem one_list_per_piece_and_type:
  "all_patterns_of fs jku_dir
     = concat (map (\<lambda>piece.
                      [spec_patterns fs
                         (glob fs (path_join piece [''monophonic'', ''repeatedPatterns'', ''*''])),
                       spec_patterns fs
                         (remove_loop 0
                            (glob fs (path_join piece [''polyphonic'', ''repeatedPatterns'', ''*''])))])
                   (glob fs (path_join jku_dir [''groundTruth'', ''*''])))
   \<and> length (all_patterns_of fs jku_dir)
       = 2 * length (glob fs (path_join jku_dir [''groundTruth'', ''*'']))
   \<and> (process fs flt toint jku_dir out_dir d = (None, d') \<longrightarrow>
        d' = d @ map (\<lambda>patterns. (''test.jams'', jam_of (spec_observations fs flt toint patterns)))
                     (all_patterns_of fs jku_dir))"
proof (intro conjI impI)
  show eq: "all_patterns_of fs jku_dir
     = concat (map (\<lambda>piece.
                      [spec_patterns fs
                         (glob fs (path_join piece [''monophonic'', ''repeatedPatterns'', ''*''])),
                       spec_patterns fs
                         (remove_loop 0
                            (glob fs (path_join piece [''polyphonic'', ''repeatedPatterns'', ''*''])))])
                   (glob fs (path_join jku_dir [''groundTruth'', ''*''])))"
    by (simp add: all_patterns_of_def piece_loop_eq types_def type_annotators_def
          get_gt_patterns_eq)
  show "length (all_patterns_of fs jku_dir)
       = 2 * length (glob fs (path_join jku_dir [''groundTruth'', ''*'']))"
    unfolding eq by (rule length_concat_pairs)
  show "d' = d @ map (\<lambda>patterns. (''test.jams'', jam_of (spec_observations fs flt toint patterns)))
                     (all_patterns_of fs jku_dir)"
    if "process fs flt toint jku_dir out_dir d = (None, d')"
    using that by (rule process_None)
qed

text \<open>The small dataset: one piece, two pattern lists, two documents.\<close>

theorem one_list_per_piece_and_type_witness:
  "process demo_fs decimal_float decimal_int ''r'' ''out'' []
     = (None, [(''test.jams'', jam_of demo_mono_obs), (''test.jams'', jam_of demo_poly_obs)])
   \<and> all_patterns_of demo_fs ''r'' = [demo_mono, demo_poly]
   \<and> length (all_patterns_of demo_fs ''r'') = 2 * length [''r/groundTruth/p'']"
proof -
  note t = one_list_per_piece_and_type [of demo_fs "''r''" decimal_float decimal_int "''out''" "[]"
      "[(''test.jams'', jam_of demo_mono_obs), (''test.jams'', jam_of demo_poly_obs)]"]
  from t demo_process demo_all_patterns show ?thesis
    by (simp add: demo_pieces)
qed

text \<open>Claim C3 as stated fails on the small dataset: its one piece has two pattern lists,
  not the one list of the patterns of both types, and the builder saves two documents.\<close>

theorem one_piece_two_documents:
  "glob demo_fs (path_join ''r'' [''groundTruth'', ''*'']) = [''r/groundTruth/p'']
   \<and> all_patterns_of demo_fs ''r'' = [demo_mono, demo_poly]
   \<and> all_patterns_of demo_fs ''r'' \<noteq> [demo_mono @ demo_poly]
   \<and> length (snd (process demo_fs decimal_float decimal_int ''r'' ''out'' [])) = 2"
  using demo_pieces demo_all_patterns demo_process
  by simp

text \<open>
  Claim C4, amended. \<open>parse_patterns\<close> does not use the output file it is given: it
  saves under the fixed name \<open>test.jams\<close>, and no run of \<open>process\<close> changes another
  file. After a run \<open>test.jams\<close> holds the document of the last pattern list that was
  saved, and nothing else of the run is on the disk. After a run that raises nothing,
  although an output file was computed for every pattern list, this is the polyphonic
  document of the last piece: its monophonic document is overwritten like the documents
  of the pieces before it.
\<close>

theorem fixed_output_file:
  "parse_patterns fs flt toint patterns out_file d0
     = parse_patterns fs flt toint patterns ''test.jams'' d0
   \<and> (\<forall>f. f \<noteq> ''test.jams'' \<longrightarrow>
         on_disk (snd (process fs flt toint jku_dir out_dir d)) f = on_disk d f)
   \<and> on_disk (snd (process fs flt toint jku_dir out_dir d)) ''test.jams''
       = (if saved_lists fs flt toint jku_dir out_dir = [] then on_disk d ''test.jams''
          else Some (jam_of (spec_observations fs flt toint
                               (last (saved_lists fs flt toint jku_dir out_dir)))))
   \<and> (fst (process fs flt toint jku_dir out_dir d) = None \<and> pieces_of fs jku_dir \<noteq> [] \<longrightarrow>
        on_disk (snd (process fs flt toint jku_dir out_dir d)) ''test.jams''
          = Some (jam_of (spec_observations fs flt toint
                    (type_patterns fs (last (pieces_of fs jku_dir)) ''polyphonic'')))
        \<and> document_observations
             (jam_of (spec_observations fs flt toint
                (type_patterns fs (last (pieces_of fs jku_dir)) ''polyphonic'')))
            = spec_observations fs flt toint
                (type_patterns fs (last (pieces_of fs jku_dir)) ''polyphonic'')
        \<and> (\<forall>patterns \<in> set (all_patterns_of fs jku_dir).
              \<exists>out_file. get_out_file patterns out_dir = Inr out_file))"
proof (intro conjI allI impI ballI)
  show "parse_patterns fs flt toint patterns out_file d0
     = parse_patterns fs flt toint patterns ''test.jams'' d0"
    by (simp add: parse_patterns_def)
  show "on_disk (snd (process fs flt toint jku_dir out_dir d)) f = on_disk d f"
    if "f \<noteq> ''test.jams''" for f
    unfolding process_saved using that by (rule on_disk_other)
  show t: "on_disk (snd (process fs flt toint jku_dir out_dir d)) ''test.jams''
       = (if saved_lists fs flt toint jku_dir out_dir = [] then on_disk d ''test.jams''
          else Some (jam_of (spec_observations fs flt toint
                               (last (saved_lists fs flt toint jku_dir out_dir)))))"
    unfolding process_saved by (rule on_disk_saved)
  show "document_observations
             (jam_of (spec_observations fs flt toint
                (type_patterns fs (last (pieces_of fs jku_dir)) ''polyphonic'')))
            = spec_observations fs flt toint
                (type_patterns fs (last (pieces_of fs jku_dir)) ''polyphonic'')"
    by (rule document_observations_jam_of)
  assume run: "fst (process fs flt toint jku_dir out_dir d) = None \<and> pieces_of fs jku_dir \<noteq> []"
  then have all: "saved_lists fs flt toint jku_dir out_dir = all_patterns_of fs jku_dir"
    by (simp add: process_fst)
  from run have ne: "all_patterns_of fs jku_dir \<noteq> []"
    by (cases "pieces_of fs jku_dir") (simp_all add: all_patterns_of_eq types_def)
  from run have "last (all_patterns_of fs jku_dir)
      = type_patterns fs (last (pieces_of fs jku_dir)) ''polyphonic''"
    by (simp add: last_all_patterns)
  with t all ne
  show "on_disk (snd (process fs flt toint jku_dir out_dir d)) ''test.jams''
          = Some (jam_of (spec_observations fs flt toint
                    (type_patterns fs (last (pieces_of fs jku_dir)) ''polyphonic'')))"
    by simp
  show "\<exists>out_file. get_out_file patterns' out_dir = Inr out_file"
    if "patterns' \<in> set (all_patterns_of fs jku_dir)" for patterns'
  proof -
    from that all have "patterns' \<in> set (saved_lists fs flt toint jku_dir out_dir)" by simp
    then have "list_ok fs flt toint out_dir patterns'"
      unfolding saved_lists_def by (rule set_takeWhileD [THEN conjunct2])
    then show ?thesis
      by (cases "get_out_file patterns' out_dir") (simp_all add: list_ok_def)
  qed
qed

text \<open>The dataset of two pieces: four names are computed, \<open>test.jams\<close> holds the
  polyphonic document of \<open>q\<close>.\<close>

theorem fixed_output_file_witness:
  "fst (process duo_fs decimal_float decimal_int ''s'' ''out'' []) = None
   \<and> pieces_of duo_fs ''s'' = [''s/groundTruth/p'', ''s/groundTruth/q'']
   \<and> map (\<lambda>patterns. get_out_file patterns ''out'') (all_patterns_of duo_fs ''s'')
       = [Inr ''out/p-monophonic.txt'', Inr ''out/p-polyphonic.txt'',
          Inr ''out/q-monophonic.txt'', Inr ''out/q-polyphonic.txt'']
   \<and> on_disk (snd (process duo_fs decimal_float decimal_int ''s'' ''out'' [])) ''test.jams''
       = Some (jam_of [demo_obs 0 63 37 1 0 1 1])
   \<and> on_disk (snd (process duo_fs decimal_float decimal_int ''s'' ''out'' []))
        ''out/q-polyphonic.txt'' = None"
proof -
  have run: "fst (process duo_fs decimal_float decimal_int ''s'' ''out'' []) = None
      \<and> pieces_of duo_fs ''s'' \<noteq> []"
    by (simp add: duo_process duo_pieces_of)
  note t = fixed_output_file [where fs = duo_fs and flt = decimal_float and toint = decimal_int
      and jku_dir = "''s''" and out_dir = "''out''" and d = "[]"]
  note last_list = t [THEN conjunct2, THEN conjunct2, THEN conjunct2, rule_format, OF run,
      THEN conjunct1]
  then have a: "on_disk (snd (process duo_fs decimal_float decimal_int ''s'' ''out'' []))
        ''test.jams'' = Some (jam_of [demo_obs 0 63 37 1 0 1 1])"
    by (simp add: duo_pieces_of duo_q_observations)
  have "''out/q-polyphonic.txt'' \<noteq> ''test.jams''" by simp
  note t [THEN conjunct2, THEN conjunct1, rule_format, OF this]
  then have b: "on_disk (snd (process duo_fs decimal_float decimal_int ''s'' ''out'' []))
        ''out/q-polyphonic.txt'' = None"
    by (simp add: on_disk_def)
  from run a b duo_out_files show ?thesis
    by (simp add: duo_all_patterns duo_pieces_of)
qed

text \<open>Claim C4 as stated fails on the dataset of two pieces: the last processed piece is
  \<open>q\<close>, and of its annotations the monophonic observation does not survive; the file
  holds the polyphonic observation only.\<close>

theorem last_piece_counterexample:
  "pieces_of duo_fs ''s'' = [''s/groundTruth/p'', ''s/groundTruth/q'']
   \<and> fst (process duo_fs decimal_float decimal_int ''s'' ''out'' []) = None
   \<and> spec_observations duo_fs decimal_float decimal_int
        (type_patterns duo_fs ''s/groundTruth/q'' ''monophonic'') = [demo_obs 0 62 36 1 0 1 1]
   \<and> map_option document_observations
        (on_disk (snd (process duo_fs decimal_float decimal_int ''s'' ''out'' [])) ''test.jams'')
       = Some [demo_obs 0 63 37 1 0 1 1]
   \<and> demo_obs 0 62 36 1 0 1 1 \<noteq> demo_obs 0 63 37 1 0 1 1"
  using duo_pieces_of duo_process duo_q_observations(1)
  by (simp add: on_disk_def document_observations_jam_of demo_obs_def)

text \<open>
  Claim C5, amended. In the document of a pattern list the rows of occurrence \<open>j\<close> of
  pattern \<open>i\<close>, both counted from 1 in the order of the lists, carry
  \<open>pattern_id = i\<close> and \<open>occurrence_id = j\<close>: the identifiers are given out
  sequentially, the occurrence identifiers start again at 1 in every pattern, and none
  is below 1. A pattern or an occurrence without rows takes its identifier all the same,
  so the identifiers found in the document need not be contiguous.
\<close>

theorem ids_sequential:
  assumes "well_formed fs flt toint patterns"
  shows "parse_patterns fs flt toint patterns out_file d
           = (None, d @ [(''test.jams'', jam_of (spec_observations fs flt toint patterns))])
     \<and> map ids (document_observations (jam_of (spec_observations fs flt toint patterns)))
         = spec_ids fs patterns
     \<and> (\<forall>ob \<in> set (document_observations (jam_of (spec_observations fs flt toint patterns))).
           1 \<le> pattern_id (val ob) \<and> pattern_id (val ob) \<le> int (length patterns)
           \<and> 1 \<le> occurrence_id (val ob))"
proof (intro conjI ballI)
  show "parse_patterns fs flt toint patterns out_file d
           = (None, d @ [(''test.jams'', jam_of (spec_observations fs flt toint patterns))])"
    using assms by (rule parse_patterns_ok)
  show "map ids (document_observations (jam_of (spec_observations fs flt toint patterns)))
         = spec_ids fs patterns"
    unfolding document_observations_jam_of spec_observations_def spec_ids_def
    using assms by (rule observations_from_ids_ok)
next
  fix ob
  assume "ob \<in> set (document_observations (jam_of (spec_observations fs flt toint patterns)))"
  then have "ob \<in> set (observations_from fs flt toint 0 patterns)"
    by (simp add: document_observations_jam_of spec_observations_def)
  from observations_from_bounds [OF this]
  show "1 \<le> pattern_id (val ob)" "pattern_id (val ob) \<le> int (length patterns)"
    "1 \<le> occurrence_id (val ob)"
    by simp_all
qed

text \<open>The monophonic patterns of the small dataset: two occurrences, none, one.\<close>

theorem ids_sequential_witness:
  "well_formed demo_fs decimal_float decimal_int demo_mono
   \<and> map ids (document_observations (jam_of demo_mono_obs)) = [(1, 1), (1, 1), (1, 2), (3, 1)]
   \<and> spec_ids demo_fs demo_mono = [(1, 1), (1, 1), (1, 2), (3, 1)]"
proof -
  have ids: "map ids demo_mono_obs = [(1, 1), (1, 1), (1, 2), (3, 1)]"
    by (simp add: demo_mono_obs_def demo_obs_def ids_def)
  note t = ids_sequential [OF demo_mono_well_formed, of "[]" "[]", THEN conjunct2,
      THEN conjunct1]
  from t ids show ?thesis
    by (simp add: demo_mono_observations demo_mono_well_formed document_observations_jam_of)
qed

text \<open>Claim C5 as stated fails on the monophonic patterns of the small dataset: the
  pattern identifiers of the document are 1 and 3, and 2 is missing.\<close>

theorem ids_not_contiguous:
  "parse_patterns demo_fs decimal_float decimal_int demo_mono ''out/p-monophonic.txt'' []
     = (None, [(''test.jams'', jam_of demo_mono_obs)])
   \<and> map (\<lambda>ob. pattern_id (val ob)) (document_observations (jam_of demo_mono_obs))
       = [1, 1, 1, 3]
   \<and> (2 :: int) \<notin> set [1, 1, 1, 3]"
proof -
  have "parse_patterns demo_fs decimal_float decimal_int demo_mono ''out/p-monophonic.txt'' []
     = (None, [(''test.jams'', jam_of demo_mono_obs)])"
    using parse_patterns_ok [OF demo_mono_well_formed, of "''out/p-monophonic.txt''" "[]"]
    by (simp add: demo_mono_observations)
  then show ?thesis
    by (simp add: document_observations_jam_of demo_mono_obs_def demo_obs_def)
qed

text \<open>
  Claim C6, amended. A row with fewer than five columns, or with one of its five columns
  not convertible, makes the parse of the row fail with IndexError or ValueError (the
  specification's ParseError). When such a row is in an occurrence file of a pattern
  list, \<open>parse_patterns\<close> raises and writes nothing of the document of that list; the
  error is the error of a row whenever every occurrence file of the list can be opened.
  \<open>process\<close> stops with that same error, and the documents it saved for the pattern
  lists before stay on the disk.
\<close>

theorem malformed_row_aborts:
  assumes "pattern \<in> set patterns" and "occ_file \<in> set pattern"
    and "read_csv fs occ_file = Some rows" and "row \<in> set rows"
    and "length row < 5 \<or> flt (row ! 0) = None \<or> flt (row ! 1) = None \<or> flt (row ! 2) = None
         \<or> flt (row ! 3) = None \<or> toint (row ! 4) = None"
    and "all_patterns_of fs jku_dir = before @ patterns # after"
    and "list_all (list_ok fs flt toint out_dir) before"
    and "get_out_file patterns out_dir = Inr out_file"
  shows "(\<exists>e. row_observation flt toint p n row = Inl e \<and> (e = IndexError \<or> e = ValueError))
     \<and> (\<exists>e. parse_patterns fs flt toint patterns out_file d0 = (Some e, d0)
             \<and> (readable fs patterns \<longrightarrow> e = IndexError \<or> e = ValueError)
             \<and> process fs flt toint jku_dir out_dir d
                 = (Some e, d @ map (\<lambda>patterns. (''test.jams'',
                                        jam_of (spec_observations fs flt toint patterns)))
                                    before))"
proof
  from assms(5) have bad: "\<not> row_ok flt toint row"
    by (auto simp: row_ok_def)
  then have "\<not> (\<exists>ob. row_observation flt toint p n row = Inr ob)"
    by (simp add: row_observation_isr)
  then obtain e where e: "row_observation flt toint p n row = Inl e"
    by (cases "row_observation flt toint p n row") auto
  with row_observation_error [OF e]
  show "\<exists>e. row_observation flt toint p n row = Inl e \<and> (e = IndexError \<or> e = ValueError)"
    by blast
  from bad assms(3,4) have "\<not> file_ok fs flt toint occ_file"
    by (auto simp: file_ok_def list_all_iff)
  with assms(1,2) have "\<not> well_formed fs flt toint patterns"
    by (auto simp: well_formed_def list_all_iff)
  from pattern_loop_fail [OF this, of 1 "[]"]
  obtain e' where e': "pattern_loop fs flt toint 1 patterns [] = Inl e'"
    "readable fs patterns \<longrightarrow> e' = IndexError \<or> e' = ValueError"
    by blast
  then have parse: "parse_patterns fs flt toint patterns out_file d' = (Some e', d')" for d'
    by (simp add: parse_patterns_def)
  let ?doc = "\<lambda>patterns. (''test.jams'', jam_of (spec_observations fs flt toint patterns))"
  have "save_loop fs flt toint out_dir before d = (None, d @ map ?doc before)"
    using assms(7) unfolding list_ok_def by (rule save_loop_ok)
  then have "process fs flt toint jku_dir out_dir d = (Some e', d @ map ?doc before)"
    by (simp add: process_def assms(6,8) save_loop_append parse)
  with parse [of d0] e'(2)
  show "\<exists>e. parse_patterns fs flt toint patterns out_file d0 = (Some e, d0)
             \<and> (readable fs patterns \<longrightarrow> e = IndexError \<or> e = ValueError)
             \<and> process fs flt toint jku_dir out_dir d = (Some e, d @ map ?doc before)"
    by blast
qed

text \<open>The small dataset with a row of four columns in the polyphonic file of \<open>bruhn\<close>:
  the monophonic list was saved before.\<close>

theorem malformed_row_aborts_witness:
  "length (csv_fields ''0,52,29,1'') < 5
   \<and> parse_patterns broken_fs decimal_float decimal_int demo_poly ''out/p-polyphonic.txt'' []
       = (Some IndexError, [])
   \<and> process broken_fs decimal_float decimal_int ''r'' ''out'' []
       = (Some IndexError, [(''test.jams'', jam_of demo_mono_obs)])"
proof -
  let ?occ = "''r/groundTruth/p/polyphonic/repeatedPatterns/bruhn/A/occurrences/csv/occ1.csv''"
  let ?rows = "[csv_fields ''0,52,29,1'']"
  have h1: "[?occ] \<in> set demo_poly" by (simp add: demo_poly_def)
  have h2: "?occ \<in> set [?occ]" by simp
  have h3: "read_csv broken_fs ?occ = Some ?rows" by (simp add: broken_fs_def)
  have h4: "csv_fields ''0,52,29,1'' \<in> set ?rows" by simp
  have len: "length (csv_fields ''0,52,29,1'') < 5" by (simp add: csv_fields_def)
  then have h5: "length (csv_fields ''0,52,29,1'') < 5
      \<or> decimal_float (csv_fields ''0,52,29,1'' ! 0) = None
      \<or> decimal_float (csv_fields ''0,52,29,1'' ! 1) = None
      \<or> decimal_float (csv_fields ''0,52,29,1'' ! 2) = None
      \<or> decimal_float (csv_fields ''0,52,29,1'' ! 3) = None
      \<or> decimal_int (csv_fields ''0,52,29,1'' ! 4) = None"
    by (rule disjI1)
  have h6: "all_patterns_of broken_fs ''r'' = [demo_mono] @ demo_poly # []"
    by (simp add: broken_all_patterns)
  have h7: "list_all (list_ok broken_fs decimal_float decimal_int ''out'') [demo_mono]"
    by (simp add: broken_mono_ok)
  note t = malformed_row_aborts [where flt = decimal_float and toint = decimal_int
      and p = 1 and n = 1 and d0 = "[]" and d = "[]",
      OF h1 h2 h3 h4 h5 h6 h7 demo_poly_out_file]
  from t obtain e where
    e: "parse_patterns broken_fs decimal_float decimal_int demo_poly ''out/p-polyphonic.txt'' []
          = (Some e, [])"
    and s: "process broken_fs decimal_float decimal_int ''r'' ''out'' []
          = (Some e, [] @ map (\<lambda>patterns. (''test.jams'',
                jam_of (spec_observations broken_fs decimal_float decimal_int patterns)))
              [demo_mono])"
    by blast
  from e broken_parse have "e = IndexError" by simp
  with e s len show ?thesis by (simp add: broken_mono_observations)
qed

text \<open>Claim C6 as stated fails on that dataset: the malformed row is in a file of its one
  piece, the run raises, and the disk holds a document for this piece, the monophonic
  one with its four observations.\<close>

theorem malformed_row_partial_output:
  "pieces_of broken_fs ''r'' = [''r/groundTruth/p'']
   \<and> process broken_fs decimal_float decimal_int ''r'' ''out'' []
       = (Some IndexError, [(''test.jams'', jam_of demo_mono_obs)])
   \<and> document_observations (jam_of demo_mono_obs) = demo_mono_obs
   \<and> length demo_mono_obs = 4"
proof -
  have "pieces_of broken_fs ''r'' = [''r/groundTruth/p'']"
    by code_simp
  moreover have "process broken_fs decimal_float decimal_int ''r'' ''out'' []
       = (Some IndexError, [(''test.jams'', jam_of demo_mono_obs)])"
    by code_simp
  ultimately show ?thesis
    by (simp add: document_observations_jam_of demo_mono_obs_def)
qed

text \<open>
  Claim C7. The output file of an empty pattern list cannot be derived: \<open>get_out_file\<close>
  fails on its assertion (the specification's InvalidInput), and the run of
  \<open>process\<close> that reaches an empty pattern list stops there with that error and
  the disk as it was, whatever pattern lists follow.
\<close>

theorem get_out_file_empty:
  "get_out_file [] out_dir = Inl AssertionError
   \<and> save_loop fs flt toint out_dir ([] # rest) d = (Some AssertionError, d)"
  by (simp add: get_out_file_def)

text \<open>
  Claim C8. A row of at least five columns that convert yields the observation whose
  time is column 0, MIDI pitch column 1, morphetic pitch column 2, duration column 3
  (all read by \<open>float\<close>) and staff column 4 (read by \<open>int\<close>); the row
  \<open>1.5,60,33,0.5,1\<close> yields time 1.5, MIDI pitch 60, morphetic pitch 33, duration
  0.5 and staff 1.
\<close>

theorem row_columns:
  assumes "5 \<le> length row"
    and "flt (row ! 0) = Some t" and "flt (row ! 1) = Some mp" and "flt (row ! 2) = Some mo"
    and "flt (row ! 3) = Some du" and "toint (row ! 4) = Some st"
  shows "row_observation flt toint p n row
           = Inr \<lparr>time = t, duration = du,
                  val = \<lparr>midi_pitch = mp, morph_pitch = mo, staff = st,
                         pattern_id = p, occurrence_id = n\<rparr>\<rparr>
         \<and> row_observation decimal_float decimal_int p n (csv_fields ''1.5,60,33,0.5,1'')
           = Inr \<lparr>time = 1.5, duration = 0.5,
                  val = \<lparr>midi_pitch = 60, morph_pitch = 33, staff = 1,
                         pattern_id = p, occurrence_id = n\<rparr>\<rparr>"
proof
  show "row_observation flt toint p n row
           = Inr \<lparr>time = t, duration = du,
                  val = \<lparr>midi_pitch = mp, morph_pitch = mo, staff = st,
                         pattern_id = p, occurrence_id = n\<rparr>\<rparr>"
    using assms by (simp add: row_observation_cols)
next
  have row: "csv_fields ''1.5,60,33,0.5,1'' = [''1.5'', ''60'', ''33'', ''0.5'', ''1'']"
    by (simp add: csv_fields_def)
  have v: "decimal_float ''1.5'' = Some 1.5" "decimal_float ''60'' = Some 60"
    "decimal_float ''33'' = Some 33" "decimal_float ''0.5'' = Some 0.5"
    "decimal_int ''1'' = Some 1"
    by (simp_all add: decimal_float_def decimal_int_def unsigned_decimal_def digit_val_def)
  show "row_observation decimal_float decimal_int p n (csv_fields ''1.5,60,33,0.5,1'')
           = Inr \<lparr>time = 1.5, duration = 0.5,
                  val = \<lparr>midi_pitch = 60, morph_pitch = 33, staff = 1,
                         pattern_id = p, occurrence_id = n\<rparr>\<rparr>"
    unfolding row by (simp add: row_observation_cols v)
qed

text \<open>The first part at the row \<open>0,72.5,40,2.25,-1\<close> of pattern 2, occurrence 3.\<close>

theorem row_columns_witness:
  "row_observation decimal_float decimal_int 2 3 (csv_fields ''0,72.5,40,2.25,-1'')
     = Inr \<lparr>time = 0, duration = 2.25,
            val = \<lparr>midi_pitch = 72.5, morph_pitch = 40, staff = - 1,
                   pattern_id = 2, occurrence_id = 3\<rparr>\<rparr>"
proof -
  have row: "csv_fields ''0,72.5,40,2.25,-1'' = [''0'', ''72.5'', ''40'', ''2.25'', ''-1'']"
    by (simp add: csv_fields_def)
  have v: "decimal_float ''0'' = Some 0" "decimal_float ''72.5'' = Some 72.5"
    "decimal_float ''40'' = Some 40" "decimal_float ''2.25'' = Some 2.25"
    "decimal_int ''-1'' = Some (- 1)"
    by (simp_all add: decimal_float_def decimal_int_def unsigned_decimal_def digit_val_def)
  have "5 \<le> length [''0'', ''72.5'', ''40'', ''2.25'', ''-1'']" by simp
  from row_columns [OF this, of decimal_float 0 "72.5" 40 "2.25" decimal_int "- 1" 2 3]
  show ?thesis unfolding row using v by simp
qed

text \<open>
  Claim C9, amended. When the first pattern of the list has a first occurrence file and
  the path of that file has a segment \<open>groundTruth\<close> followed by at least two more
  segments, the output file is the output directory joined with the two segments that
  follow the first \<open>groundTruth\<close>, a hyphen between them and \<open>.txt\<close> after them.
\<close>

theorem get_out_file_name:
  assumes "patterns = (occ0 # occs) # rest"
    and "py_split CHR ''/'' occ0 = pre @ ''groundTruth'' # a # b # post"
    and "''groundTruth'' \<notin> set pre"
  shows "get_out_file patterns out_dir
           = Inr (if out_dir = [] \<or> last out_dir = CHR ''/''
                  then out_dir @ a @ ''-'' @ b @ ''.txt''
                  else out_dir @ ''/'' @ a @ ''-'' @ b @ ''.txt'')"
proof -
  let ?ns = "pre @ ''groundTruth'' # a # b # post"
  have i: "py_index ?ns ''groundTruth'' = Inr (int (length pre))"
    using assms(3) by (rule py_index_first)
  have a: "getitem ?ns (int (length pre) - 1 + 2) = Inr a"
  proof -
    have "int (length pre) - 1 + 2 = int (length pre + 1)" by simp
    then show ?thesis by (simp only: getitem_int) (simp add: nth_append)
  qed
  have b: "getitem ?ns (int (length pre) - 1 + 3) = Inr b"
  proof -
    have "int (length pre) - 1 + 3 = int (length pre + 2)" by simp
    then show ?thesis by (simp only: getitem_int) (simp add: nth_append)
  qed
  have "a \<in> set (py_split CHR ''/'' occ0)" using assms(2) by simp
  then have "CHR ''/'' \<notin> set a" by (rule py_split_no_sep)
  then have hd: "\<not> (a @ ''-'' @ b @ ''.txt'' \<noteq> [] \<and> hd (a @ ''-'' @ b @ ''.txt'') = CHR ''/'')"
    by (cases a) auto
  have j: "path_join out_dir [a @ ''-'' @ b @ ''.txt'']
             = (if out_dir = [] \<or> last out_dir = CHR ''/''
                  then out_dir @ a @ ''-'' @ b @ ''.txt''
                  else out_dir @ ''/'' @ a @ ''-'' @ b @ ''.txt'')"
    unfolding path_join_def using hd by (simp add: join2_def)
  have g0: "getitem ((occ0 # occs) # rest) 0 = Inr (occ0 # occs)"
    "getitem (occ0 # occs) 0 = Inr occ0"
    by (simp_all add: getitem_def)
  show ?thesis
    unfolding get_out_file_def assms(1) using g0 assms(2) i a b j
    by (simp add: Let_def)
qed

text \<open>In the layout of the dataset the two segments are the piece and the annotation
  type.\<close>

theorem get_out_file_name_witness:
  "get_out_file [[''r/groundTruth/p/monophonic/repeatedPatterns/X/A/occurrences/csv/1.csv'']] ''out''
     = Inr ''out/p-monophonic.txt''"
proof -
  have s: "py_split CHR ''/'' ''r/groundTruth/p/monophonic/repeatedPatterns/X/A/occurrences/csv/1.csv''
     = [''r''] @ ''groundTruth'' # ''p'' # ''monophonic'' # [''repeatedPatterns'', ''X'', ''A'', ''occurrences'', ''csv'', ''1.csv'']"
    by simp
  have n: "''groundTruth'' \<notin> set [''r'']" by simp
  from get_out_file_name [OF refl s n, of "[]" "[]" "''out''"]
  show ?thesis by simp
qed

text \<open>Claim C9 as stated fails on the non-empty pattern list whose only pattern has no
  occurrence: there is no first occurrence file, and reading it raises IndexError.\<close>

theorem get_out_file_counterexample:
  "[[]] \<noteq> ([] :: string list list) \<and> get_out_file [[]] ''out'' = Inl IndexError"
  by (simp add: get_out_file_def getitem_def)

text \<open>
  Claim C10. A pattern directory without CSV files puts an empty occurrence list into the
  pattern list, and an empty pattern takes a pattern identifier: no observation carries
  it, the observations of the patterns before it carry smaller identifiers and those of
  the patterns after it strictly larger ones.
\<close>

theorem empty_pattern_consumes_id:
  "(annotator \<in> set annotators \<and> pattern \<in> set (glob fs (path_join annotator [''*'']))
      \<and> isdir fs pattern
      \<and> glob fs (path_join pattern [''occurrences'', ''csv'', ''*.csv'']) = []
     \<longrightarrow> [] \<in> set (get_gt_patterns fs annotators))
   \<and> (well_formed fs flt toint (before @ [] # after) \<longrightarrow>
        parse_patterns fs flt toint (before @ [] # after) out_file d
          = (None, d @ [(''test.jams'',
                         jam_of (observations_from fs flt toint 0 before
                                 @ observations_from fs flt toint (length before + 1) after))])
        \<and> (\<forall>ob \<in> set (observations_from fs flt toint 0 before).
              pattern_id (val ob) < int (length before) + 1)
        \<and> (\<forall>ob \<in> set (observations_from fs flt toint (length before + 1) after).
              int (length before) + 1 < pattern_id (val ob)))"
proof (intro conjI impI ballI)
  assume a: "annotator \<in> set annotators \<and> pattern \<in> set (glob fs (path_join annotator [''*'']))
      \<and> isdir fs pattern
      \<and> glob fs (path_join pattern [''occurrences'', ''csv'', ''*.csv'']) = []"
  then have "pattern \<in> set (pattern_dirs fs annotator)" and "occurrence_files fs pattern = []"
    by (simp_all add: pattern_dirs_def occurrence_files_def)
  then have "[] \<in> occurrence_files fs ` set (pattern_dirs fs annotator)"
    by force
  with a show "[] \<in> set (get_gt_patterns fs annotators)"
    by (auto simp: get_gt_patterns_eq spec_patterns_def)
next
  assume wf: "well_formed fs flt toint (before @ [] # after)"
  have "spec_observations fs flt toint (before @ [] # after)
          = observations_from fs flt toint 0 before
            @ observations_from fs flt toint (length before + 1) after"
    by (simp add: spec_observations_def observations_from_append
          observations_from_empty_pattern)
  with parse_patterns_ok [OF wf, of out_file d]
  show "parse_patterns fs flt toint (before @ [] # after) out_file d
          = (None, d @ [(''test.jams'',
                         jam_of (observations_from fs flt toint 0 before
                                 @ observations_from fs flt toint (length before + 1) after))])"
    by simp
next
  fix ob assume "ob \<in> set (observations_from fs flt toint 0 before)"
  from observations_from_bounds [OF this]
  show "pattern_id (val ob) < int (length before) + 1" by simp
next
  fix ob assume "ob \<in> set (observations_from fs flt toint (length before + 1) after)"
  from observations_from_bounds [OF this]
  show "int (length before) + 1 < pattern_id (val ob)" by simp
qed

text \<open>Pattern \<open>B\<close> of the small dataset has no occurrence: the identifiers of the
  document are 1 and 3.\<close>

theorem empty_pattern_consumes_id_witness:
  "[] \<in> set (get_gt_patterns demo_fs [''r/groundTruth/p/monophonic/repeatedPatterns/X''])
   \<and> parse_patterns demo_fs decimal_float decimal_int demo_mono ''out/p-monophonic.txt'' []
       = (None, [(''test.jams'', jam_of demo_mono_obs)])
   \<and> map (\<lambda>ob. pattern_id (val ob)) demo_mono_obs = [1, 1, 1, 3]"
proof -
  let ?X = "''r/groundTruth/p/monophonic/repeatedPatterns/X''"
  let ?B = "''r/groundTruth/p/monophonic/repeatedPatterns/X/B''"
  let ?before = "[[''r/groundTruth/p/monophonic/repeatedPatterns/X/A/occurrences/csv/occ1.csv'',
       ''r/groundTruth/p/monophonic/repeatedPatterns/X/A/occurrences/csv/occ2.csv'']]"
  let ?after = "[[''r/groundTruth/p/monophonic/repeatedPatterns/X/C/occurrences/csv/occ1.csv'']]"
  have dir: "?X \<in> set [?X] \<and> ?B \<in> set (glob demo_fs (path_join ?X [''*'']))
      \<and> isdir demo_fs ?B
      \<and> glob demo_fs (path_join ?B [''occurrences'', ''csv'', ''*.csv'']) = []"
    by code_simp
  have split: "?before @ [] # ?after = demo_mono"
    by (simp add: demo_mono_def)
  have wf: "well_formed demo_fs decimal_float decimal_int (?before @ [] # ?after)"
    unfolding split by (rule demo_mono_well_formed)
  have obs: "observations_from demo_fs decimal_float decimal_int 0 ?before
       @ observations_from demo_fs decimal_float decimal_int (length ?before + 1) ?after
     = demo_mono_obs"
    by code_simp
  note t = empty_pattern_consumes_id [where annotator = ?X and annotators = "[?X]"
      and pattern = ?B and fs = demo_fs and flt = decimal_float and toint = decimal_int
      and before = ?before and after = ?after and out_file = "''out/p-monophonic.txt''"
      and d = "[]"]
  from t dir have a: "[] \<in> set (get_gt_patterns demo_fs [?X])" by blast
  from t wf have "parse_patterns demo_fs decimal_float decimal_int (?before @ [] # ?after)
       ''out/p-monophonic.txt'' []
     = (None, [] @ [(''test.jams'',
          jam_of (observations_from demo_fs decimal_float decimal_int 0 ?before
            @ observations_from demo_fs decimal_float decimal_int (length ?before + 1) ?after))])"
    by blast
  then have b: "parse_patterns demo_fs decimal_float decimal_int demo_mono
       ''out/p-monophonic.txt'' [] = (None, [(''test.jams'', jam_of demo_mono_obs)])"
    unfolding split obs by simp
  have c: "map (\<lambda>ob. pattern_id (val ob)) demo_mono_obs = [1, 1, 1, 3]"
    by (simp add: demo_mono_obs_def demo_obs_def)
  from a b c show ?thesis by blast
qed

end
